theory Spec2Isabelle
  imports Main "HOL-Library.AList"
begin

section \<open>Python values, dictionaries and the logger\<close>

text \<open>
  The monitoring engine (\<^verbatim>\<open>Pegasus/monitoring/workflow.py\<close>) keeps its state in the
  attributes of one \<^verbatim>\<open>Workflow\<close> object and in the \<^verbatim>\<open>Job\<close> objects it stores in
  dictionaries. Dictionaries are association lists with one entry per key:
  \<open>map_of d k\<close> is \<^verbatim>\<open>d[k]\<close>, \<open>AList.update k v d\<close> is \<^verbatim>\<open>d[k] = v\<close> and
  \<open>AList.delete k d\<close> is \<^verbatim>\<open>del d[k]\<close>.
\<close>

datatype pyval = PNone | PStr string | PInt int | PBool bool | PDict "(string \<times> pyval) list"

type_synonym kwargs = "(string \<times> pyval) list"

definition has_key :: "('k \<times> 'v) list \<Rightarrow> 'k \<Rightarrow> bool" where
  \<comment> \<open>\<^verbatim>\<open>k in d\<close>\<close>
  "has_key d k = (map_of d k \<noteq> None)"

definition py_str_opt :: "string option \<Rightarrow> pyval" where
  "py_str_opt x = (case x of None \<Rightarrow> PNone | Some v \<Rightarrow> PStr v)"

definition py_int_opt :: "int option \<Rightarrow> pyval" where
  "py_int_opt x = (case x of None \<Rightarrow> PNone | Some v \<Rightarrow> PInt v)"

text \<open>
  A call of the logger is recorded with its level, its format string and the tuple of
  arguments it is applied to.
\<close>

datatype level = DEBUG | INFO | WARNING | ERROR | CRITICAL

type_synonym log_record = "level \<times> string \<times> pyval list"

section \<open>Decimal formatting\<close>

fun digits :: "nat \<Rightarrow> string" where
  "digits n = (if n < 10 then [char_of (48 + n)] else digits (n div 10) @ [char_of (48 + n mod 10)])"

declare digits.simps [simp del]

definition str_int :: "int \<Rightarrow> string" where
  \<comment> \<open>\<^verbatim>\<open>str(n)\<close> and \<^verbatim>\<open>"%d" % n\<close>\<close>
  "str_int n = (if n < 0 then CHR ''-'' # digits (nat (- n)) else digits (nat n))"

definition fmt_03d :: "int \<Rightarrow> string" where
  \<comment> \<open>\<^verbatim>\<open>"%03d" % n\<close>: zero padding to three characters, the sign counted in\<close>
  "fmt_03d n =
     (if n < 0 then CHR ''-'' # replicate (2 - length (digits (nat (- n)))) CHR ''0'' @ digits (nat (- n))
      else replicate (3 - length (digits (nat n))) CHR ''0'' @ digits (nat n))"

section \<open>Job instances, static job information and the workflow\<close>

text \<open>
  The attributes of a \<^verbatim>\<open>Job\<close> object that the workflow reads or writes. The identity
  of an instance is the pair of \<open>exec_job_id\<close> and \<open>j_job_submit_seq\<close>.
\<close>

record job =
  j_wf_uuid :: "string option"
  exec_job_id :: string
  j_job_submit_seq :: int
  job_state :: string
  job_state_timestamp :: int
  job_state_seq :: int
  sched_id :: "string option"
  site_name :: "string option"
  remote_user :: "string option"
  remote_working_dir :: "string option"
  cluster_start_time :: pyval
  cluster_duration :: pyval
  main_job_start :: "int option"
  main_job_done :: "int option"
  input_file :: "string option"
  output_file :: "string option"
  error_file :: "string option"
  kickstart_parsed :: bool
  job_output_counter :: int
  stdout_text :: "string option"
  stderr_text :: "string option"
  main_job_multiplier_factor :: "int option"
  main_job_exitcode :: "int option"
  job_dagman_out :: "string option"

text \<open>
  One entry of \<^verbatim>\<open>_job_info\<close>: the list
  \<^verbatim>\<open>[sub_file, pre_exec, pre_args, post_exec, post_args, is_subdag, subdag_dag, subdag_dir]\<close>,
  read by index in the source.
\<close>

record static_info =
  sub_file :: "string option"
  pre_exec :: "string option"
  pre_args :: "string option"
  post_exec :: "string option"
  post_args :: "string option"
  is_subdag :: bool
  subdag_dag :: "string option"
  subdag_dir :: "string option"

text \<open>
  The attributes of the \<^verbatim>\<open>Workflow\<close> object. The sink is an external object: \<open>sink\<close>
  is \<open>None\<close> when no sink is configured and otherwise holds the calls of \<^verbatim>\<open>send\<close>
  made so far. \<open>JSDB\<close> is the text written to the job state log, \<open>notified\<close> the
  calls made to the notifications manager and \<open>log\<close> the calls of the logger.
\<close>

record workflow =
  sink :: "(string \<times> kwargs) list option"
  database_disabled :: bool
  wf_uuid :: "string option"
  dax_label :: "string option"
  dax_index :: "string option"
  user :: "string option"
  run_dir :: string
  output_dir :: "string option"
  out_file :: string
  original_submit_dir :: "string option"
  store_stdout_stderr :: bool
  enable_notifications :: bool
  notifications_manager :: bool
  replay_mode :: bool
  jobs_map :: "(string \<times> int) list"
  jobs :: "((string \<times> int) \<times> job) list"
  job_submit_seq :: int
  job_counters :: "(string \<times> int) list"
  job_info :: "(string \<times> static_info) list"
  line :: int
  last_processed_line :: int
  previous_processed_line :: int
  restart_count :: int
  current_timestamp :: int
  dagman_condor_id :: "string option"
  dagman_exit_code :: "int option"
  walltime :: "(string \<times> string) list"
  job_site :: "(string \<times> string) list"
  JSDB :: "string list"
  notified :: "(string \<times> pyval list) list"
  log :: "log_record list"

definition logger :: "level \<Rightarrow> string \<Rightarrow> pyval list \<Rightarrow> workflow \<Rightarrow> workflow" where
  "logger lv fmt args s = s\<lparr>log := log s @ [(lv, fmt, args)]\<rparr>"

section \<open>Finding and adding job instances\<close>

definition find_jobid :: "string \<Rightarrow> workflow \<Rightarrow> int option" where
  "find_jobid jobid s = (if has_key (jobs_map s) jobid then map_of (jobs_map s) jobid else None)"

definition find_job_submit_seq :: "string \<Rightarrow> string option \<Rightarrow> workflow \<Rightarrow> int option \<times> workflow" where
  "find_job_submit_seq jobid schedid s =
     (case find_jobid jobid s of
        None \<Rightarrow> (None, s)
      | Some my_job_submit_seq \<Rightarrow>
          (case map_of (jobs s) (jobid, my_job_submit_seq) of
             None \<Rightarrow> (None, logger WARNING ''cannot find job: %s, %s''
                               [PStr jobid, PInt my_job_submit_seq] s)
           | Some my_job \<Rightarrow>
               if job_state my_job = ''PRE_SCRIPT_SUCCESS'' \<or> job_state my_job = ''DAGMAN_SUBMIT''
               then (Some my_job_submit_seq, s)
               else if schedid \<noteq> None \<and> sched_id my_job = schedid
               then (Some my_job_submit_seq, s)
               else (None, s)))"

text \<open>
  The last step of \<^verbatim>\<open>add_job\<close>, shared by both of its branches: a job entering the
  \<^verbatim>\<open>SUBMIT\<close> state bumps the resubmission counter of its name, and the instance
  \<open>(jobid, q)\<close> records the counter.
\<close>

definition add_job_counter :: "string \<Rightarrow> string \<Rightarrow> int \<Rightarrow> workflow \<Rightarrow> int option \<times> workflow" where
  "add_job_counter jobid jstate q s =
     (if jstate = ''SUBMIT'' then
        let c = (case map_of (job_counters s) jobid of Some n \<Rightarrow> n + 1 | None \<Rightarrow> 0);
            s1 = s\<lparr>job_counters := AList.update jobid c (job_counters s)\<rparr>
        in (Some q, s1\<lparr>jobs := AList.map_entry (jobid, q) (\<lambda>j. j\<lparr>job_output_counter := c\<rparr>) (jobs s1)\<rparr>)
      else (Some q, s))"

text \<open>
  \<^verbatim>\<open>add_job\<close>. The constructor of the \<^verbatim>\<open>Job\<close> class is a parameter \<open>Job\<close>: it gets the
  workflow id, the job name and the submit-sequence number, and \<^verbatim>\<open>add_job\<close> overwrites
  the state, the timestamp and the scheduler id of what it returns. The result is the
  value \<^verbatim>\<open>add_job\<close> returns (\<open>None\<close> for a bare \<^verbatim>\<open>return\<close>).
\<close>

definition add_job ::
  "(string option \<Rightarrow> string \<Rightarrow> int \<Rightarrow> job) \<Rightarrow> string \<Rightarrow> string \<Rightarrow> string option \<Rightarrow> workflow
     \<Rightarrow> int option \<times> workflow" where
  "add_job Job jobid jstate schedid s =
     (case find_job_submit_seq jobid schedid s of
        (Some my_job_submit_seq, s1) \<Rightarrow>
          (case map_of (jobs s1) (jobid, my_job_submit_seq) of
             None \<Rightarrow> (None, logger WARNING ''cannot find job: %s, %s''
                               [PStr jobid, PInt my_job_submit_seq] s1)
           | Some my_job \<Rightarrow>
               let my_job1 = (if schedid \<noteq> None then my_job\<lparr>sched_id := schedid\<rparr> else my_job);
                   my_job2 = my_job1\<lparr>job_state := jstate, job_state_timestamp := current_timestamp s1\<rparr>
               in add_job_counter jobid jstate my_job_submit_seq
                    (s1\<lparr>jobs := AList.update (jobid, my_job_submit_seq) my_job2 (jobs s1)\<rparr>))
      | (None, s1) \<Rightarrow>
          let my_job_submit_seq = job_submit_seq s1 in
          if has_key (jobs s1) (jobid, my_job_submit_seq)
          then (None, logger WARNING ''trying to add job twice: %s, %s''
                        [PStr jobid, PInt my_job_submit_seq] s1)
          else
            let my_job = (Job (wf_uuid s1) jobid my_job_submit_seq)
                           \<lparr>job_state := jstate, job_state_timestamp := current_timestamp s1,
                            sched_id := schedid\<rparr>
            in add_job_counter jobid jstate my_job_submit_seq
                 (s1\<lparr>jobs := AList.update (jobid, my_job_submit_seq) my_job (jobs s1),
                     jobs_map := AList.update jobid my_job_submit_seq (jobs_map s1),
                     job_submit_seq := job_submit_seq s1 + 1\<rparr>))"

section \<open>Sending events to the sink\<close>

definition or_unknown :: "string option \<Rightarrow> string" where
  \<comment> \<open>\<^verbatim>\<open>(x or "unknown")\<close>\<close>
  "or_unknown x = (case x of None \<Rightarrow> ''unknown'' | Some v \<Rightarrow> if v = [] then ''unknown'' else v)"

definition label_index :: "workflow \<Rightarrow> string" where
  "label_index s = or_unknown (dax_label s) @ ''-'' @ or_unknown (dax_index s)"

text \<open>
  \<^verbatim>\<open>output_to_db\<close>. What the sink does with a call is not part of this module: the
  parameter \<open>raises\<close> tells, from the calls of \<^verbatim>\<open>send\<close> made so far (the current one
  last), whether the current call raises. The third warning carries the formatted
  traceback of the exception.
\<close>

definition output_to_db ::
  "((string \<times> kwargs) list \<Rightarrow> bool) \<Rightarrow> string \<Rightarrow> kwargs \<Rightarrow> workflow \<Rightarrow> workflow" where
  "output_to_db raises event kw s =
     (case sink s of
        None \<Rightarrow> s
      | Some sent \<Rightarrow>
          if database_disabled s then s
          else
            let s1 = s\<lparr>sink := Some (sent @ [(event, kw)])\<rparr> in
            if raises (sent @ [(event, kw)]) then
              (let s2 = logger WARNING ''NL-LOAD-ERROR --> %s - %s''
                          [py_str_opt (wf_uuid s1), PStr (label_index s1)] s1;
                   s3 = logger WARNING ''error sending event: %s --> %s'' [PStr event, PDict kw] s2;
                   s4 = logger WARNING ''traceback.format_exc()'' [] s3
               in s4\<lparr>database_disabled := True\<rparr>)
            else s1)"

definition check_notifications :: "workflow \<Rightarrow> bool \<times> workflow" where
  "check_notifications s =
     (if \<not> enable_notifications s then (False, s)
      else if line s < previous_processed_line s then
        (False, logger DEBUG ''Recovery mode: skipping notification already issued... line %s''
                  [PInt (line s)] s)
      else (True, s))"

definition db_send_wf_state ::
  "((string \<times> kwargs) list \<Rightarrow> bool) \<Rightarrow> string option \<Rightarrow> workflow \<Rightarrow> workflow" where
  "db_send_wf_state raises state s =
     (if sink s = None then s
      else case state of
        None \<Rightarrow> s
      | Some st \<Rightarrow>
          let kw0 = AList.update ''xwf__id'' (py_str_opt (wf_uuid s)) [];
              kw1 = AList.update ''ts'' (PInt (current_timestamp s)) kw0;
              kw2 = AList.update ''restart_count'' (PInt (restart_count s - 1)) kw1
          in if st = ''end'' then
               let kw3 = AList.update ''status'' (py_int_opt (dagman_exit_code s)) kw2;
                   kw4 = (if dagman_exit_code s \<noteq> Some 0
                          then AList.update ''level'' (PStr ''Error'') kw3 else kw3)
               in if dagman_exit_code s = None then
                    output_to_db raises (''xwf.'' @ st) (AList.update ''status'' (PInt 0) kw4)
                      (logger WARNING ''%s - %s - %s - %s: DAGMan exit code hasn't been set...''
                         [py_str_opt (wf_uuid s), PStr (label_index s), PInt (line s),
                          PStr (out_file s)] s)
                  else output_to_db raises (''xwf.'' @ st) kw4 s
             else output_to_db raises (''xwf.'' @ st) kw2 s)"

definition str_opt :: "string option \<Rightarrow> string" where
  \<comment> \<open>\<^verbatim>\<open>"%s" % v\<close> for a string or \<^verbatim>\<open>None\<close>\<close>
  "str_opt v = (case v of None \<Rightarrow> ''None'' | Some x \<Rightarrow> x)"

definition str_int_opt :: "int option \<Rightarrow> string" where
  \<comment> \<open>\<^verbatim>\<open>str(v)\<close> for an integer or \<^verbatim>\<open>None\<close>\<close>
  "str_int_opt v = (case v of None \<Rightarrow> ''None'' | Some n \<Rightarrow> str_int n)"

definition change_wf_state ::
  "((string \<times> kwargs) list \<Rightarrow> bool) \<Rightarrow> string \<Rightarrow> workflow \<Rightarrow> workflow" where
  "change_wf_state raises state s =
     (let s1 =
        (if state = ''start'' then
           (logger INFO ''DAGMan starting with condor id %s'' [py_str_opt (dagman_condor_id s)] s)
             \<lparr>JSDB := JSDB s @ [str_int (current_timestamp s) @ '' INTERNAL *** DAGMAN_STARTED ''
                                 @ str_opt (dagman_condor_id s) @ '' ***'' @ [CHR 0x0A]],
              restart_count := restart_count s + 1\<rparr>
         else if state = ''end'' then
           s\<lparr>JSDB := JSDB s @ [str_int (current_timestamp s) @ '' INTERNAL *** DAGMAN_FINISHED ''
                                @ str_int_opt (dagman_exit_code s) @ '' ***'' @ [CHR 0x0A]]\<rparr>
         else s);
          (chk, s2) = check_notifications s1;
          s3 = (if chk \<and> notifications_manager s2
                then s2\<lparr>notified := notified s2 @ [(''process_workflow_notifications'', [PStr state])]\<rparr>
                else s2)
      in db_send_wf_state raises (Some state) s3)"

section \<open>Wiping finished jobs when the controller starts\<close>

definition job_is_done :: "(string \<times> static_info) list \<Rightarrow> (string \<times> int) \<times> job \<Rightarrow> bool" where
  \<comment> \<open>the two branches of \<^verbatim>\<open>start_wf\<close> that append to \<^verbatim>\<open>jobs_to_delete\<close>\<close>
  "job_is_done info e =
     (case e of ((my_jobid, my_job_submit_seq), my_job) \<Rightarrow>
        if job_state my_job = ''POST_SCRIPT_SUCCESS'' then True
        else if job_state my_job = ''JOB_SUCCESS'' then
          (case map_of info my_jobid of Some i \<Rightarrow> post_exec i = None | None \<Rightarrow> False)
        else False)"

definition jobs_to_delete :: "workflow \<Rightarrow> (string \<times> int) list" where
  "jobs_to_delete s = map fst (filter (job_is_done (job_info s)) (jobs s))"

definition discard :: "'k \<Rightarrow> ('k \<times> 'v) list \<Rightarrow> ('k \<times> 'v) list" where
  \<comment> \<open>\<^verbatim>\<open>if k in d: del d[k]\<close>\<close>
  "discard k d = (if has_key d k then AList.delete k d else d)"

definition delete_job :: "string \<times> int \<Rightarrow> workflow \<Rightarrow> workflow" where
  "delete_job k s =
     (case k of (my_jobid, my_job_submit_seq) \<Rightarrow>
        s\<lparr>walltime := discard my_jobid (walltime s),
          job_site := discard my_jobid (job_site s),
          jobs_map := discard my_jobid (jobs_map s),
          jobs := discard (my_jobid, my_job_submit_seq) (jobs s)\<rparr>)"

definition start_wf :: "workflow \<Rightarrow> workflow" where
  "start_wf s =
     (let kept = filter (\<lambda>e. \<not> job_is_done (job_info s) e) (jobs s);
          s1 = s\<lparr>log := log s @ [(DEBUG, ''DAGMan restarted, cleaning up old job information...'', [])]
                        @ map (\<lambda>e. (DEBUG, ''keeping job %s...'', [PStr (fst (fst e))])) kept\<rparr>
      in fold delete_job (jobs_to_delete s) s1)"

section \<open>The state file and the recovery file\<close>

text \<open>
  Both files hold one \<^verbatim>\<open>key value\<close> pair per line. A line is modelled as the
  readers take it apart with \<^verbatim>\<open>split(" ", 1)\<close>: \<open>Line k v\<close> is a line with a key and
  a rest, where \<open>k\<close> is the stripped key and \<open>v\<close> the integer the stripped rest denotes
  (\<open>None\<close> when \<^verbatim>\<open>int\<close> raises on it), and \<open>Malformed\<close> is a line without a space, on
  which the unpacking raises. A file is the list of its lines, \<open>None\<close> when \<^verbatim>\<open>open\<close>
  fails on it.
\<close>

datatype file_line = Line string "int option" | Malformed

type_synonym text_file = "file_line list option"

definition os_path_join :: "string \<Rightarrow> string \<Rightarrow> string" where
  "os_path_join a b =
     (if b \<noteq> [] \<and> hd b = CHR ''/'' then b
      else if a = [] \<or> last a = CHR ''/'' then a @ b
      else a @ ''/'' @ b)"

definition MONITORD_STATE_FILE :: string where
  "MONITORD_STATE_FILE = ''monitord.info''"

definition MONITORD_RECOVER_FILE :: string where
  "MONITORD_RECOVER_FILE = ''monitord.recover''"

definition my_fn :: "string \<Rightarrow> workflow \<Rightarrow> string" where
  \<comment> \<open>the name of a file of the monitor, in the run directory or in the output directory\<close>
  "my_fn name s =
     (case output_dir s of
        None \<Rightarrow> os_path_join (run_dir s) name
      | Some d \<Rightarrow> os_path_join d (str_opt (wf_uuid s) @ ''-'' @ name))"

text \<open>
  The text of a line, as Python reads it: \<^verbatim>\<open>strip\<close> removes white space at both
  ends, \<^verbatim>\<open>int\<close> accepts an optional sign and decimal digits, and iterating over a file
  yields its lines, each with its line break.
\<close>

definition is_space :: "char \<Rightarrow> bool" where
  "is_space c = (c = CHR '' '' \<or> c = CHR 0x09 \<or> c = CHR 0x0A \<or> c = CHR 0x0B
                 \<or> c = CHR 0x0C \<or> c = CHR 0x0D)"

definition strip :: "string \<Rightarrow> string" where
  "strip x = rev (dropWhile is_space (rev (dropWhile is_space x)))"

definition is_digit :: "char \<Rightarrow> bool" where
  "is_digit c = (48 \<le> (of_char c :: nat) \<and> (of_char c :: nat) \<le> 57)"

definition digits_value :: "string \<Rightarrow> nat" where
  "digits_value ds = fold (\<lambda>c a. 10 * a + (of_char c - 48)) ds 0"

definition py_int :: "string \<Rightarrow> int option" where
  \<comment> \<open>\<^verbatim>\<open>int(x)\<close>, \<open>None\<close> when it raises \<^verbatim>\<open>ValueError\<close>\<close>
  "py_int x =
     (let t = strip x;
          neg = (t \<noteq> [] \<and> hd t = CHR ''-'');
          ds = (if t \<noteq> [] \<and> (hd t = CHR ''-'' \<or> hd t = CHR ''+'') then tl t else t)
      in if ds \<noteq> [] \<and> list_all is_digit ds
         then Some (if neg then - int (digits_value ds) else int (digits_value ds))
         else None)"

fun lines_of :: "string \<Rightarrow> string list" where
  "lines_of [] = []"
| "lines_of (c # cs) =
     (if c = CHR 0x0A then [c] # lines_of cs
      else (case lines_of cs of [] \<Rightarrow> [[c]] | l # ls \<Rightarrow> (c # l) # ls))"

definition tokenise :: "string \<Rightarrow> file_line" where
  \<comment> \<open>\<^verbatim>\<open>my_job, my_count = line.split(" ", 1)\<close>, then \<^verbatim>\<open>strip\<close> and \<^verbatim>\<open>int\<close>\<close>
  "tokenise l =
     (if CHR '' '' \<in> set l
      then Line (strip (takeWhile (\<lambda>c. c \<noteq> CHR '' '') l))
                (py_int (strip (tl (dropWhile (\<lambda>c. c \<noteq> CHR '' '') l))))
      else Malformed)"

fun read_state_lines :: "string \<Rightarrow> file_line list \<Rightarrow> workflow \<Rightarrow> workflow" where
  "read_state_lines fn [] s = s"
| "read_state_lines fn (Malformed # ls) s =
     logger ERROR ''error processing state file %s'' [PStr fn] s"
| "read_state_lines fn (Line my_job None # ls) s =
     logger ERROR ''error processing state file %s'' [PStr fn] s"
| "read_state_lines fn (Line my_job (Some my_count) # ls) s =
     read_state_lines fn ls
       (if my_job = ''monitord_job_sequence'' then s\<lparr>job_submit_seq := my_count\<rparr>
        else if my_job = ''monitord_dagman_out_sequence'' then s\<lparr>last_processed_line := my_count\<rparr>
        else if my_job = ''monitord_workflow_restart_count'' then s\<lparr>restart_count := my_count\<rparr>
        else s\<lparr>job_counters := AList.update my_job my_count (job_counters s)\<rparr>)"

definition read_workflow_state :: "text_file \<Rightarrow> workflow \<Rightarrow> workflow" where
  "read_workflow_state f s =
     (case f of
        None \<Rightarrow> logger INFO ''cannot open state file %s, continuing without state...''
                  [PStr (my_fn MONITORD_STATE_FILE s)] s
      | Some ls \<Rightarrow> read_state_lines (my_fn MONITORD_STATE_FILE s) ls s)"

text \<open>
  \<^verbatim>\<open>write_workflow_state\<close> gets the file as it is, whether \<^verbatim>\<open>open\<close> succeeds and how
  many of its calls of \<^verbatim>\<open>write\<close> get their text out before one of them raises (\<open>None\<close>:
  all of them), and returns the file as it leaves it: the lines of the text written,
  as a reader takes them apart.
\<close>

definition state_file_writes :: "workflow \<Rightarrow> string list" where
  \<comment> \<open>the texts of the calls of \<^verbatim>\<open>OUT.write\<close>, in order\<close>
  "state_file_writes s =
     [''monitord_job_sequence '' @ str_int (job_submit_seq s) @ [CHR 0x0A],
      ''monitord_dagman_out_sequence ''
        @ str_int (if line s > last_processed_line s then line s else last_processed_line s)
        @ [CHR 0x0A],
      ''monitord_workflow_restart_count '' @ str_int (restart_count s) @ [CHR 0x0A]]
     @ map (\<lambda>(my_job, c). my_job @ '' '' @ str_int c @ [CHR 0x0A]) (job_counters s)"

definition file_of_writes :: "string list \<Rightarrow> file_line list" where
  "file_of_writes ws = map tokenise (lines_of (concat ws))"

definition state_file_lines :: "workflow \<Rightarrow> file_line list" where
  "state_file_lines s = file_of_writes (state_file_writes s)"

definition write_workflow_state ::
  "bool \<Rightarrow> nat option \<Rightarrow> text_file \<Rightarrow> workflow \<Rightarrow> text_file \<times> workflow" where
  "write_workflow_state open_ok written f s =
     (if \<not> open_ok then
        (f, logger ERROR ''cannot open state file %s'' [PStr (my_fn MONITORD_STATE_FILE s)] s)
      else case written of
        None \<Rightarrow> (Some (state_file_lines s), s)
      | Some n \<Rightarrow>
          (Some (file_of_writes (take n (state_file_writes s))),
           logger ERROR ''cannot write state to log file %s''
             [PStr (my_fn MONITORD_STATE_FILE s)] s))"

fun read_recover_lines :: "string \<Rightarrow> file_line list \<Rightarrow> workflow \<Rightarrow> workflow" where
  "read_recover_lines fn [] s = s"
| "read_recover_lines fn (Malformed # ls) s =
     logger INFO ''couldn't open/parse recover file information: %s'' [PStr fn] s"
| "read_recover_lines fn (Line my_key my_value # ls) s =
     (if my_key = ''line_processed'' then
        (case my_value of
           None \<Rightarrow> logger INFO ''couldn't open/parse recover file information: %s'' [PStr fn] s
         | Some v \<Rightarrow> logger INFO ''monitord last processed line: %d'' [PInt v]
                       (s\<lparr>previous_processed_line := v\<rparr>))
      else read_recover_lines fn ls s)"

text \<open>
  \<^verbatim>\<open>read_workflow_progress\<close> gets the result of \<^verbatim>\<open>os.access(my_recover_file, os.F_OK)\<close>
  and the recovery file; a file that is there and cannot be opened is logged.
\<close>

definition read_workflow_progress :: "bool \<Rightarrow> text_file \<Rightarrow> workflow \<Rightarrow> workflow" where
  "read_workflow_progress file_exists f s =
     (if file_exists then
        (case f of
           None \<Rightarrow> logger INFO ''couldn't open/parse recover file information: %s''
                     [PStr (my_fn MONITORD_RECOVER_FILE s)] s
         | Some ls \<Rightarrow> read_recover_lines (my_fn MONITORD_RECOVER_FILE s) ls s)
      else s)"

text \<open>
  \<^verbatim>\<open>write_workflow_progress\<close> gets the recovery file as it is, whether \<^verbatim>\<open>open\<close>
  succeeds and whether the write does, and returns the file as it leaves it: opening
  for writing empties the file, also when the write then raises.
\<close>

definition write_workflow_progress ::
  "bool \<Rightarrow> bool \<Rightarrow> text_file \<Rightarrow> workflow \<Rightarrow> text_file \<times> workflow" where
  "write_workflow_progress open_ok write_ok f s =
     (if line s < previous_processed_line s then (f, s)
      else if \<not> open_ok then
        (f, logger ERROR ''cannot open recover file: %s''
              [PStr (my_fn MONITORD_RECOVER_FILE s)] s)
      else if \<not> write_ok then
        (Some [], logger ERROR ''cannot write recover information to file: %s''
                    [PStr (my_fn MONITORD_RECOVER_FILE s)] s)
      else (Some [Line ''line_processed'' (Some (line s))], s))"

text \<open>
  The attributes \<^verbatim>\<open>Workflow.__init__\<close> sets before it reads the workflow's
  configuration, from the arguments of the constructor, and the step of the constructor
  that recovers the state of a previous run. The constructor reaches that step when the
  configuration names the workflow id and the DAG file.
\<close>

definition new_workflow ::
  "string \<Rightarrow> string \<Rightarrow> bool \<Rightarrow> bool \<Rightarrow> bool \<Rightarrow> bool \<Rightarrow> string option \<Rightarrow> bool \<Rightarrow> workflow" where
  "new_workflow rundir outfile database enable_notif replay store_out_err outdir notif_manager =
     \<lparr>sink = (if database then Some [] else None), database_disabled = False,
      wf_uuid = None, dax_label = None, dax_index = None, user = None,
      run_dir = rundir, output_dir = outdir, out_file = outfile, original_submit_dir = None,
      store_stdout_stderr = store_out_err, enable_notifications = enable_notif,
      notifications_manager = notif_manager, replay_mode = replay,
      jobs_map = [], jobs = [], job_submit_seq = 1, job_counters = [], job_info = [],
      line = 0, last_processed_line = 0, previous_processed_line = 0, restart_count = 0,
      current_timestamp = 0, dagman_condor_id = None, dagman_exit_code = None,
      walltime = [], job_site = [], JSDB = [], notified = [], log = []\<rparr>"

definition init_recover :: "text_file \<Rightarrow> bool \<Rightarrow> text_file \<Rightarrow> workflow \<Rightarrow> workflow" where
  "init_recover state_file recover_exists recover_file s =
     (if \<not> replay_mode s then
        let s1 = read_workflow_state state_file s;
            s2 = read_workflow_progress recover_exists recover_file s1
        in if previous_processed_line s2 \<noteq> 0 then s2\<lparr>last_processed_line := 0\<rparr> else s2
      else s)"

section \<open>The end event of the main job\<close>

definition MAX_OUTPUT_LENGTH :: nat where
  "MAX_OUTPUT_LENGTH = 2 ^ 16 - 1"

definition set_items :: "(string \<times> pyval option) list \<Rightarrow> kwargs \<Rightarrow> kwargs" where
  \<comment> \<open>a run of assignments \<^verbatim>\<open>kwargs[k] = v\<close>; \<open>(k, None)\<close> is one whose guard is false\<close>
  "set_items xs kw = fold (\<lambda>(k, x) d. case x of None \<Rightarrow> d | Some v \<Rightarrow> AList.update k v d) xs kw"

definition rotated :: "job \<Rightarrow> string \<Rightarrow> string" where
  \<comment> \<open>the rotated file name, used for a job with kickstart output only\<close>
  "rotated my_job f = (if kickstart_parsed my_job then f @ ''.'' @ fmt_03d (job_output_counter my_job) else f)"

definition job_end_kwargs :: "job \<Rightarrow> int option \<Rightarrow> workflow \<Rightarrow> kwargs" where
  "job_end_kwargs my_job status s =
     set_items
       [(''xwf__id'', Some (py_str_opt (j_wf_uuid my_job))),
        (''job__id'', Some (PStr (exec_job_id my_job))),
        (''job_inst__id'', Some (PInt (j_job_submit_seq my_job))),
        (''ts'', Some (PInt (job_state_timestamp my_job))),
        (''js__id'', Some (PInt (job_state_seq my_job))),
        (''site'', (case site_name my_job of Some x \<Rightarrow> Some (PStr x) | None \<Rightarrow> Some (PStr []))),
        (''user'', (case remote_user my_job of
                      Some x \<Rightarrow> Some (PStr x)
                    | None \<Rightarrow> (case user s of Some u \<Rightarrow> Some (PStr u) | None \<Rightarrow> None))),
        (''work_dir'', (case remote_working_dir my_job of
                          Some x \<Rightarrow> Some (PStr x)
                        | None \<Rightarrow> (case original_submit_dir s of
                                     Some d \<Rightarrow> Some (PStr d) | None \<Rightarrow> None))),
        (''cluster__start'', (if cluster_start_time my_job \<noteq> PNone
                              then Some (cluster_start_time my_job) else None)),
        (''cluster__dur'', (if cluster_duration my_job \<noteq> PNone
                            then Some (cluster_duration my_job) else None)),
        (''local__dur'', (case (main_job_start my_job, main_job_done my_job) of
                            (Some a, Some b) \<Rightarrow> Some (PInt (b - a))
                          | _ \<Rightarrow> None)),
        (''stdin__file'', (case input_file my_job of Some f \<Rightarrow> Some (PStr f) | None \<Rightarrow> None)),
        (''stdout__file'', (case output_file my_job of
                              Some f \<Rightarrow> Some (PStr (rotated my_job f)) | None \<Rightarrow> Some (PStr []))),
        (''stderr__file'', (case error_file my_job of
                              Some f \<Rightarrow> Some (PStr (rotated my_job f)) | None \<Rightarrow> Some (PStr []))),
        (''stdout__text'',
           (if store_stdout_stderr s then
              (case stdout_text my_job of
                 Some t \<Rightarrow>
                   if length t > MAX_OUTPUT_LENGTH
                   then Some (PStr (take MAX_OUTPUT_LENGTH t))
                   else Some (PStr t)
               | None \<Rightarrow> None)
            else None)),
        (''stderr__text'',
           (if store_stdout_stderr s then
              (case stderr_text my_job of
                 Some t \<Rightarrow>
                   if length t > MAX_OUTPUT_LENGTH
                   then Some (PStr (take MAX_OUTPUT_LENGTH t))
                   else Some (PStr t)
               | None \<Rightarrow> None)
            else None)),
        (''multiplier_factor'', (case main_job_multiplier_factor my_job of
                                   Some m \<Rightarrow> Some (PStr (str_int m)) | None \<Rightarrow> None)),
        (''exitcode'', Some (PStr (str_int_opt (main_job_exitcode my_job)))),
        (''sched__id'', (case sched_id my_job of Some i \<Rightarrow> Some (PStr i) | None \<Rightarrow> None)),
        (''status'', (case status of Some st \<Rightarrow> Some (PInt st) | None \<Rightarrow> Some (PInt (- 1)))),
        (''level'', (if status \<noteq> Some 0 then Some (PStr ''Error'') else None))]
       []"

definition truncation_warnings :: "job \<Rightarrow> workflow \<Rightarrow> log_record list" where
  \<comment> \<open>the warnings \<^verbatim>\<open>db_send_job_end\<close> logs while it fills in the two text fields\<close>
  "truncation_warnings my_job s =
     (if store_stdout_stderr s then
        (case stdout_text my_job of
           Some t \<Rightarrow> if length t > MAX_OUTPUT_LENGTH
                     then [(WARNING, ''truncating stdout for job %s'', [PStr (exec_job_id my_job)])]
                     else []
         | None \<Rightarrow> [])
        @ (case stderr_text my_job of
             Some t \<Rightarrow> if length t > MAX_OUTPUT_LENGTH
                       then [(WARNING, ''truncating stderr for job %s'', [PStr (exec_job_id my_job)])]
                       else []
           | None \<Rightarrow> [])
      else [])"

definition db_send_job_end ::
  "((string \<times> kwargs) list \<Rightarrow> bool) \<Rightarrow> job \<Rightarrow> int option \<Rightarrow> workflow \<Rightarrow> job \<times> workflow" where
  "db_send_job_end raises my_job status s =
     (if sink s = None then (my_job, s)
      else
        let s1 = s\<lparr>log := log s @ truncation_warnings my_job s\<rparr>;
            s2 = output_to_db raises ''job_inst.main.end'' (job_end_kwargs my_job status s) s1
        in (my_job\<lparr>stdout_text := None, stderr_text := None\<rparr>, s2))"

section \<open>Sub-workflows\<close>








section \<open>Resolving the instance a state update is for\<close>

text \<open>
  The first step of \<^verbatim>\<open>update_job_state\<close> (its ``find job'' block): the instance the
  update is applied to, \<open>None\<close> when the function warns and returns.
\<close>

definition update_job_state_find ::
  "string \<Rightarrow> int option \<Rightarrow> workflow \<Rightarrow> ((string \<times> int) \<times> job) option \<times> workflow" where
  "update_job_state_find jobid jseq s =
     (let jseq1 = (if jseq = None then
                     (if has_key (jobs_map s) jobid then map_of (jobs_map s) jobid else jseq)
                   else jseq)
      in (case jseq1 of
           None \<Rightarrow> (None, logger WARNING ''cannot find job: %s, %s'' [PStr jobid, PNone] s)
         | Some q \<Rightarrow>
             (case map_of (jobs s) (jobid, q) of
                None \<Rightarrow> (None, logger WARNING ''cannot find job: %s, %s'' [PStr jobid, PInt q] s)
              | Some my_job \<Rightarrow> (Some ((jobid, q), my_job), s))))"

section \<open>Runs of the monitor\<close>

text \<open>
  The caller of this module reads the controller log line by line: it sets the line
  number and, as lines are processed, calls \<^verbatim>\<open>write_workflow_progress\<close>. A run of such
  calls is a list of line numbers, each with the outcome of opening and of writing the
  recovery file.
\<close>

fun progress_run :: "(int \<times> bool \<times> bool) list \<Rightarrow> text_file \<Rightarrow> workflow \<Rightarrow> text_file \<times> workflow" where
  "progress_run [] f s = (f, s)"
| "progress_run ((n, open_ok, write_ok) # cs) f s =
     (case write_workflow_progress open_ok write_ok f (s\<lparr>line := n\<rparr>) of
        (f1, s1) \<Rightarrow> progress_run cs f1 s1)"

text \<open>
  A constructor of job instances to run \<^verbatim>\<open>add_job\<close> with on concrete inputs: the
  identity comes from the arguments, every other attribute is empty.
\<close>

definition blank_job :: "string option \<Rightarrow> string \<Rightarrow> int \<Rightarrow> job" where
  "blank_job uuid jobid q =
     \<lparr>j_wf_uuid = uuid, exec_job_id = jobid, j_job_submit_seq = q, job_state = [],
      job_state_timestamp = 0, job_state_seq = 0, sched_id = None, site_name = None,
      remote_user = None, remote_working_dir = None, cluster_start_time = PNone,
      cluster_duration = PNone, main_job_start = None, main_job_done = None,
      input_file = None, output_file = None, error_file = None, kickstart_parsed = False,
      job_output_counter = 0, stdout_text = None, stderr_text = None,
      main_job_multiplier_factor = None, main_job_exitcode = None, job_dagman_out = None\<rparr>"

text \<open>
  A run of the operations that change the index of live instances: signals that add a
  job, and starts of the controller.
\<close>

datatype op = AddJob string string "string option" | StartWf

fun apply_op :: "(string option \<Rightarrow> string \<Rightarrow> int \<Rightarrow> job) \<Rightarrow> op \<Rightarrow> workflow \<Rightarrow> workflow" where
  "apply_op Job (AddJob jobid jstate schedid) s = snd (add_job Job jobid jstate schedid s)"
| "apply_op Job StartWf s = start_wf s"

definition run_ops :: "(string option \<Rightarrow> string \<Rightarrow> int \<Rightarrow> job) \<Rightarrow> op list \<Rightarrow> workflow \<Rightarrow> workflow" where
  "run_ops Job ops s = fold (apply_op Job) ops s"


text \<open>
  The index is consistent when every instance has a number below the counter and every
  name in \<open>jobs_map\<close> is mapped to an instance of that name with the greatest number.
\<close>

definition index_consistent :: "workflow \<Rightarrow> bool" where
  "index_consistent s =
     ((\<forall>k \<in> set (map fst (jobs s)). snd k < job_submit_seq s)
      \<and> (\<forall>n \<in> set (map fst (jobs_map s)).
            case map_of (jobs_map s) n of
              None \<Rightarrow> True
            | Some q \<Rightarrow> has_key (jobs s) (n, q)
                        \<and> (\<forall>k \<in> set (map fst (jobs s)). fst k = n \<longrightarrow> snd k \<le> q)))"

text \<open>Concrete workflows and jobs, to run the functions on.\<close>

definition wf0 :: workflow where
  "wf0 = new_workflow ''/run'' ''wf.dag.dagman.out'' True True False True None False"


definition job_at :: "string \<Rightarrow> int \<Rightarrow> string \<Rightarrow> string \<Rightarrow> (string \<times> int) \<times> job" where
  \<comment> \<open>an instance in a given state that has a scheduler id\<close>
  "job_at jobid q jstate schedid =
     ((jobid, q), (blank_job None jobid q)\<lparr>job_state := jstate, sched_id := Some schedid\<rparr>)"

definition wf_notify :: workflow where
  \<comment> \<open>like \<open>wf0\<close>, with a notifications manager\<close>
  "wf_notify = new_workflow ''/run'' ''wf.dag.dagman.out'' True True False True None True"


definition wf_running :: workflow where
  \<comment> \<open>\<^verbatim>\<open>A\<close> runs under the scheduler id \<^verbatim>\<open>41.0\<close>, \<^verbatim>\<open>B\<close> waits in \<^verbatim>\<open>DAGMAN_SUBMIT\<close> under \<^verbatim>\<open>7.0\<close>\<close>
  "wf_running = wf0\<lparr>jobs := [job_at ''A'' 1 ''EXECUTE'' ''41.0'', job_at ''B'' 2 ''DAGMAN_SUBMIT'' ''7.0''],
                     jobs_map := [(''A'', 1), (''B'', 2)],
                     job_submit_seq := 3\<rparr>"

definition wf_waiting :: workflow where
  \<comment> \<open>as \<open>wf_running\<close>, but \<^verbatim>\<open>A\<close> waits after its pre script\<close>
  "wf_waiting = wf0\<lparr>jobs := [job_at ''A'' 1 ''PRE_SCRIPT_SUCCESS'' ''41.0'',
                              job_at ''B'' 2 ''DAGMAN_SUBMIT'' ''7.0''],
                     jobs_map := [(''A'', 1), (''B'', 2)],
                     job_submit_seq := 3\<rparr>"





definition sink_ok :: "(string \<times> kwargs) list \<Rightarrow> bool" where
  \<comment> \<open>a sink that never raises\<close>
  "sink_ok sent = False"

definition wf_recovering :: workflow where
  \<comment> \<open>a workflow started on a recovery file that records line 5, without a state file\<close>
  "wf_recovering = init_recover None True (Some [Line ''line_processed'' (Some 5)]) wf_notify"

definition wf_collide :: workflow where
  \<comment> \<open>a workflow that has submitted a job named like a key of the state file\<close>
  "wf_collide = snd (add_job blank_job ''monitord_job_sequence'' ''SUBMIT'' None wf0)"

definition wf_restarted :: workflow where
  \<comment> \<open>the next run: started on the state file that \<open>wf_collide\<close> writes when it ends\<close>
  "wf_restarted = init_recover (fst (write_workflow_state True None None wf_collide)) False None wf0"

section \<open>Failures of the sink\<close>

lemma output_to_db_disabled: "database_disabled t \<Longrightarrow> output_to_db raises e k t = t"
  by (simp add: output_to_db_def split: option.splits)

text \<open>
  C4. The first call of the sink that raises is logged with three warnings and sets
  \<open>database_disabled\<close>; from then on every call of \<^verbatim>\<open>output_to_db\<close>, whatever the
  sink would do with it, returns the workflow as it is, so the sink is not called again.
  \<^verbatim>\<open>output_to_db\<close> returns a workflow in every case: the exception stops there.
\<close>

theorem output_to_db_first_failure_disables_sink:
  assumes "sink s = Some sent" and "\<not> database_disabled s" and "raises (sent @ [(event, kw)])"
  shows "database_disabled (output_to_db raises event kw s)
       \<and> sink (output_to_db raises event kw s) = Some (sent @ [(event, kw)])
       \<and> log (output_to_db raises event kw s) = log s @
           [(WARNING, ''NL-LOAD-ERROR --> %s - %s'', [py_str_opt (wf_uuid s), PStr (label_index s)]),
            (WARNING, ''error sending event: %s --> %s'', [PStr event, PDict kw]),
            (WARNING, ''traceback.format_exc()'', [])]
       \<and> (\<forall>later. fold (\<lambda>c. output_to_db (fst c) (fst (snd c)) (snd (snd c))) later
                     (output_to_db raises event kw s) = output_to_db raises event kw s)
       \<and> (\<forall>t raises' e k. database_disabled t \<longrightarrow> output_to_db raises' e k t = t)"
proof -
  let ?s' = "output_to_db raises event kw s"
  have d: "database_disabled ?s'"
    using assms by (simp add: output_to_db_def logger_def Let_def)
  have "fold (\<lambda>c. output_to_db (fst c) (fst (snd c)) (snd (snd c))) later ?s' = ?s'" for later
    using d by (induction later) (simp_all add: output_to_db_disabled)
  moreover have "sink ?s' = Some (sent @ [(event, kw)])"
    using assms by (simp add: output_to_db_def logger_def Let_def)
  moreover have "log ?s' = log s @
           [(WARNING, ''NL-LOAD-ERROR --> %s - %s'', [py_str_opt (wf_uuid s), PStr (label_index s)]),
            (WARNING, ''error sending event: %s --> %s'', [PStr event, PDict kw]),
            (WARNING, ''traceback.format_exc()'', [])]"
    using assms by (simp add: output_to_db_def logger_def Let_def label_index_def)
  ultimately show ?thesis using d by (simp add: output_to_db_disabled)
qed

theorem output_to_db_first_failure_witness:
  "sink (new_workflow ''run'' ''dag.out'' True True False True None False) = Some []
   \<and> \<not> database_disabled (new_workflow ''run'' ''dag.out'' True True False True None False)
   \<and> database_disabled
        (output_to_db (\<lambda>c. True) ''xwf.start'' []
           (new_workflow ''run'' ''dag.out'' True True False True None False))
   \<and> sink (output_to_db (\<lambda>c. False) ''xwf.end'' []
              (output_to_db (\<lambda>c. True) ''xwf.start'' []
                 (new_workflow ''run'' ''dag.out'' True True False True None False)))
       = Some [(''xwf.start'', [])]"
proof -
  let ?s = "new_workflow ''run'' ''dag.out'' True True False True None False"
  have a: "sink ?s = Some []" and b: "\<not> database_disabled ?s"
    by (simp_all add: new_workflow_def)
  have c: "(\<lambda>c::(string \<times> kwargs) list. True) ([] @ [(''xwf.start'', [])])" by simp
  from output_to_db_first_failure_disables_sink [OF a b c]
  have d: "database_disabled (output_to_db (\<lambda>c. True) ''xwf.start'' [] ?s)"
    and e: "sink (output_to_db (\<lambda>c. True) ''xwf.start'' [] ?s) = Some [(''xwf.start'', [])]"
    and f: "\<forall>t raises' e k. database_disabled t \<longrightarrow> output_to_db raises' e k t = t"
    by simp_all
  from f d have "output_to_db (\<lambda>c. False) ''xwf.end'' [] (output_to_db (\<lambda>c. True) ''xwf.start'' [] ?s)
                 = output_to_db (\<lambda>c. True) ''xwf.start'' [] ?s"
    by blast
  with a b d e show ?thesis by simp
qed

section \<open>The recovery file never falls behind\<close>

lemma write_workflow_progress_cases:
  "write_workflow_progress o_ok w_ok f s = (f1, s1) \<Longrightarrow>
     previous_processed_line s1 = previous_processed_line s \<and>
     (f1 = f \<or> f1 = Some [] \<or> (f1 = Some [Line ''line_processed'' (Some (line s))]
          \<and> previous_processed_line s \<le> line s))"
  by (auto simp: write_workflow_progress_def logger_def split: if_splits)

lemma progress_run_marker:
  assumes "f = Some [] \<or> (\<exists>n\<ge>previous_processed_line s. f = Some [Line ''line_processed'' (Some n)])"
    and "progress_run calls f s = (f1, s1)"
  shows "(f1 = Some [] \<or> (\<exists>n\<ge>previous_processed_line s. f1 = Some [Line ''line_processed'' (Some n)]))
       \<and> previous_processed_line s1 = previous_processed_line s"
  using assms
proof (induction calls arbitrary: f s)
  case Nil
  then show ?case by simp
next
  case (Cons c calls)
  obtain n o_ok w_ok where c: "c = (n, o_ok, w_ok)" by (cases c)
  obtain f2 s2 where w: "write_workflow_progress o_ok w_ok f (s\<lparr>line := n\<rparr>) = (f2, s2)"
    by (cases "write_workflow_progress o_ok w_ok f (s\<lparr>line := n\<rparr>)")
  from write_workflow_progress_cases [OF w] Cons.prems(1)
  have p: "previous_processed_line s2 = previous_processed_line s"
    and m: "f2 = Some [] \<or> (\<exists>n\<ge>previous_processed_line s2. f2 = Some [Line ''line_processed'' (Some n)])"
    by auto
  from Cons.prems(2) c w have "progress_run calls f2 s2 = (f1, s1)" by simp
  from Cons.IH [OF m this] p show ?case by simp
qed

text \<open>
  C10. \<^verbatim>\<open>write_workflow_progress\<close> returns without touching the recovery file while the
  current line is below the offset of the previous daemon, and changes the file only
  when the line is at or above it. So, starting from a recovery file that records the
  offset \<open>P\<close> and from the state \<^verbatim>\<open>read_workflow_progress\<close> recovers from it, after any
  run of calls the file records an offset of at least \<open>P\<close>, or nothing at all when a
  write failed after the file was opened.
\<close>

theorem write_workflow_progress_never_lowers_offset:
  "(line s < previous_processed_line s \<longrightarrow> write_workflow_progress o_ok w_ok f s = (f, s))
   \<and> (fst (write_workflow_progress o_ok w_ok f s) \<noteq> f \<longrightarrow> previous_processed_line s \<le> line s)
   \<and> previous_processed_line (read_workflow_progress True (Some [Line ''line_processed'' (Some P)]) s) = P
   \<and> (\<forall>calls. let f1 = fst (progress_run calls (Some [Line ''line_processed'' (Some P)])
                               (read_workflow_progress True (Some [Line ''line_processed'' (Some P)]) s))
               in f1 = Some [] \<or> (\<exists>n. P \<le> n \<and> f1 = Some [Line ''line_processed'' (Some n)]))"
proof -
  let ?m = "Some [Line ''line_processed'' (Some P)]"
  let ?s0 = "read_workflow_progress True ?m s"
  have p: "previous_processed_line ?s0 = P"
    by (simp add: read_workflow_progress_def logger_def)
  have a: "line s < previous_processed_line s \<longrightarrow> write_workflow_progress o_ok w_ok f s = (f, s)"
    by (simp add: write_workflow_progress_def)
  have b: "fst (write_workflow_progress o_ok w_ok f s) \<noteq> f \<longrightarrow> previous_processed_line s \<le> line s"
    by (simp add: write_workflow_progress_def)
  have c: "fst (progress_run calls ?m ?s0) = Some []
           \<or> (\<exists>n. P \<le> n \<and> fst (progress_run calls ?m ?s0) = Some [Line ''line_processed'' (Some n)])"
    for calls
  proof -
    obtain f1 s1 where r: "progress_run calls ?m ?s0 = (f1, s1)"
      by (cases "progress_run calls ?m ?s0")
    have "?m = Some [] \<or> (\<exists>n\<ge>previous_processed_line ?s0. ?m = Some [Line ''line_processed'' (Some n)])"
      using p by simp
    from progress_run_marker [OF this r] p r show ?thesis by auto
  qed
  from a b p c show ?thesis by (simp add: Let_def)
qed

theorem write_workflow_progress_never_lowers_offset_witness:
  "line ((new_workflow ''run'' ''dag.out'' False False False False None False)
           \<lparr>previous_processed_line := 5, line := 3\<rparr>)
     < previous_processed_line ((new_workflow ''run'' ''dag.out'' False False False False None False)
           \<lparr>previous_processed_line := 5, line := 3\<rparr>)
   \<and> fst (write_workflow_progress True True (Some [Line ''line_processed'' (Some 5)])
            ((new_workflow ''run'' ''dag.out'' False False False False None False)
               \<lparr>previous_processed_line := 5, line := 3\<rparr>))
       = Some [Line ''line_processed'' (Some 5)]
   \<and> fst (progress_run [(3, True, True), (7, True, True), (6, True, True)]
            (Some [Line ''line_processed'' (Some 5)])
            (read_workflow_progress True (Some [Line ''line_processed'' (Some 5)])
               (new_workflow ''run'' ''dag.out'' False False False False None False)))
       = Some [Line ''line_processed'' (Some 6)]"
  using write_workflow_progress_never_lowers_offset
    [of "(new_workflow ''run'' ''dag.out'' False False False False None False)
           \<lparr>previous_processed_line := 5, line := 3\<rparr>" True True
        "Some [Line ''line_processed'' (Some 5)]" 5]
  by (simp add: new_workflow_def write_workflow_progress_def read_workflow_progress_def logger_def)

section \<open>The text fields of the main job's end event\<close>

lemma map_of_set_items:
  "map_of (set_items xs kw) k =
     fold (\<lambda>(k', x) r. if k' = k then (case x of Some v \<Rightarrow> Some v | None \<Rightarrow> r) else r) xs (map_of kw k)"
  by (induction xs arbitrary: kw) (auto simp: set_items_def update_conv' split: option.splits)

lemma stdout_text_kwargs:
  "map_of (job_end_kwargs my_job status s) ''stdout__text'' =
     (if store_stdout_stderr s then
        (case stdout_text my_job of Some t \<Rightarrow> Some (PStr (take MAX_OUTPUT_LENGTH t)) | None \<Rightarrow> None)
      else None)"
  by (simp add: job_end_kwargs_def map_of_set_items split: option.splits)

lemma stderr_text_kwargs:
  "map_of (job_end_kwargs my_job status s) ''stderr__text'' =
     (if store_stdout_stderr s then
        (case stderr_text my_job of Some t \<Rightarrow> Some (PStr (take MAX_OUTPUT_LENGTH t)) | None \<Rightarrow> None)
      else None)"
  by (simp add: job_end_kwargs_def map_of_set_items split: option.splits)

lemma db_send_job_end_sink:
  "sink s = Some sent \<Longrightarrow> \<not> database_disabled s \<Longrightarrow>
     sink (snd (db_send_job_end raises my_job status s))
       = Some (sent @ [(''job_inst.main.end'', job_end_kwargs my_job status s)])"
  by (simp add: db_send_job_end_def output_to_db_def logger_def Let_def)

lemma db_send_job_end_log:
  "sink s = Some sent \<Longrightarrow>
     set (truncation_warnings my_job s) \<subseteq> set (log (snd (db_send_job_end raises my_job status s)))"
  by (auto simp: db_send_job_end_def output_to_db_def logger_def Let_def)

text \<open>
  C7. In the end event of the main job that \<^verbatim>\<open>db_send_job_end\<close> sends, the fields
  \<^verbatim>\<open>stdout__text\<close> and \<^verbatim>\<open>stderr__text\<close> hold at most \<open>MAX_OUTPUT_LENGTH\<close> characters.
  A longer text is cut to exactly that length and a warning is logged; a text within
  the limit is passed on as it is.
\<close>

theorem db_send_job_end_truncates_text:
  assumes "sink s = Some sent" and "\<not> database_disabled s"
  shows "\<exists>kw. sink (snd (db_send_job_end raises my_job status s))
                = Some (sent @ [(''job_inst.main.end'', kw)])
     \<and> (\<forall>t. map_of kw ''stdout__text'' = Some (PStr t) \<longrightarrow> length t \<le> MAX_OUTPUT_LENGTH)
     \<and> (\<forall>t. map_of kw ''stderr__text'' = Some (PStr t) \<longrightarrow> length t \<le> MAX_OUTPUT_LENGTH)
     \<and> (\<forall>t. store_stdout_stderr s \<and> stdout_text my_job = Some t \<longrightarrow>
            (MAX_OUTPUT_LENGTH < length t \<longrightarrow>
               map_of kw ''stdout__text'' = Some (PStr (take MAX_OUTPUT_LENGTH t))
               \<and> length (take MAX_OUTPUT_LENGTH t) = MAX_OUTPUT_LENGTH
               \<and> (WARNING, ''truncating stdout for job %s'', [PStr (exec_job_id my_job)])
                   \<in> set (log (snd (db_send_job_end raises my_job status s))))
            \<and> (length t \<le> MAX_OUTPUT_LENGTH \<longrightarrow> map_of kw ''stdout__text'' = Some (PStr t)))
     \<and> (\<forall>t. store_stdout_stderr s \<and> stderr_text my_job = Some t \<longrightarrow>
            (MAX_OUTPUT_LENGTH < length t \<longrightarrow>
               map_of kw ''stderr__text'' = Some (PStr (take MAX_OUTPUT_LENGTH t))
               \<and> length (take MAX_OUTPUT_LENGTH t) = MAX_OUTPUT_LENGTH
               \<and> (WARNING, ''truncating stderr for job %s'', [PStr (exec_job_id my_job)])
                   \<in> set (log (snd (db_send_job_end raises my_job status s))))
            \<and> (length t \<le> MAX_OUTPUT_LENGTH \<longrightarrow> map_of kw ''stderr__text'' = Some (PStr t)))"
proof -
  let ?kw = "job_end_kwargs my_job status s"
  let ?s' = "snd (db_send_job_end raises my_job status s)"
  have snk: "sink ?s' = Some (sent @ [(''job_inst.main.end'', ?kw)])"
    using assms by (rule db_send_job_end_sink)
  have out_le: "\<forall>t. map_of ?kw ''stdout__text'' = Some (PStr t) \<longrightarrow> length t \<le> MAX_OUTPUT_LENGTH"
    by (simp add: stdout_text_kwargs split: option.splits)
  have err_le: "\<forall>t. map_of ?kw ''stderr__text'' = Some (PStr t) \<longrightarrow> length t \<le> MAX_OUTPUT_LENGTH"
    by (simp add: stderr_text_kwargs split: option.splits)
  have sub: "set (truncation_warnings my_job s) \<subseteq> set (log ?s')"
    using assms(1) by (rule db_send_job_end_log)
  have out: "\<forall>t. store_stdout_stderr s \<and> stdout_text my_job = Some t \<longrightarrow>
            (MAX_OUTPUT_LENGTH < length t \<longrightarrow>
               map_of ?kw ''stdout__text'' = Some (PStr (take MAX_OUTPUT_LENGTH t))
               \<and> length (take MAX_OUTPUT_LENGTH t) = MAX_OUTPUT_LENGTH
               \<and> (WARNING, ''truncating stdout for job %s'', [PStr (exec_job_id my_job)]) \<in> set (log ?s'))
            \<and> (length t \<le> MAX_OUTPUT_LENGTH \<longrightarrow> map_of ?kw ''stdout__text'' = Some (PStr t))"
  proof (intro allI impI conjI)
    fix t assume h: "store_stdout_stderr s \<and> stdout_text my_job = Some t"
    then show "map_of ?kw ''stdout__text'' = Some (PStr t)" if "length t \<le> MAX_OUTPUT_LENGTH"
      using that by (simp add: stdout_text_kwargs)
    assume l: "MAX_OUTPUT_LENGTH < length t"
    from h show "map_of ?kw ''stdout__text'' = Some (PStr (take MAX_OUTPUT_LENGTH t))"
      by (simp add: stdout_text_kwargs)
    from l show "length (take MAX_OUTPUT_LENGTH t) = MAX_OUTPUT_LENGTH" by simp
    from h l have "(WARNING, ''truncating stdout for job %s'', [PStr (exec_job_id my_job)])
                    \<in> set (truncation_warnings my_job s)"
      by (simp add: truncation_warnings_def)
    with sub show "(WARNING, ''truncating stdout for job %s'', [PStr (exec_job_id my_job)]) \<in> set (log ?s')"
      by (rule subsetD)
  qed
  have err: "\<forall>t. store_stdout_stderr s \<and> stderr_text my_job = Some t \<longrightarrow>
            (MAX_OUTPUT_LENGTH < length t \<longrightarrow>
               map_of ?kw ''stderr__text'' = Some (PStr (take MAX_OUTPUT_LENGTH t))
               \<and> length (take MAX_OUTPUT_LENGTH t) = MAX_OUTPUT_LENGTH
               \<and> (WARNING, ''truncating stderr for job %s'', [PStr (exec_job_id my_job)]) \<in> set (log ?s'))
            \<and> (length t \<le> MAX_OUTPUT_LENGTH \<longrightarrow> map_of ?kw ''stderr__text'' = Some (PStr t))"
  proof (intro allI impI conjI)
    fix t assume h: "store_stdout_stderr s \<and> stderr_text my_job = Some t"
    then show "map_of ?kw ''stderr__text'' = Some (PStr t)" if "length t \<le> MAX_OUTPUT_LENGTH"
      using that by (simp add: stderr_text_kwargs)
    assume l: "MAX_OUTPUT_LENGTH < length t"
    from h show "map_of ?kw ''stderr__text'' = Some (PStr (take MAX_OUTPUT_LENGTH t))"
      by (simp add: stderr_text_kwargs)
    from l show "length (take MAX_OUTPUT_LENGTH t) = MAX_OUTPUT_LENGTH" by simp
    from h l have "(WARNING, ''truncating stderr for job %s'', [PStr (exec_job_id my_job)])
                    \<in> set (truncation_warnings my_job s)"
      by (simp add: truncation_warnings_def split: option.splits)
    with sub show "(WARNING, ''truncating stderr for job %s'', [PStr (exec_job_id my_job)]) \<in> set (log ?s')"
      by (rule subsetD)
  qed
  from snk out_le err_le out err show ?thesis
    by (intro exI [of _ ?kw] conjI)
qed

theorem db_send_job_end_truncates_text_witness:
  "sink wf0 = Some [] \<and> \<not> database_disabled wf0 \<and> store_stdout_stderr wf0
   \<and> MAX_OUTPUT_LENGTH < length (replicate 65536 CHR ''x'')
   \<and> (\<exists>kw. sink (snd (db_send_job_end (\<lambda>c. False)
                          ((blank_job None ''A'' 1)\<lparr>stdout_text := Some (replicate 65536 CHR ''x'')\<rparr>)
                          (Some 0) wf0))
              = Some [(''job_inst.main.end'', kw)]
          \<and> map_of kw ''stdout__text'' = Some (PStr (replicate 65535 CHR ''x'')))"
proof -
  let ?j = "(blank_job None ''A'' 1)\<lparr>stdout_text := Some (replicate 65536 CHR ''x'')\<rparr>"
  have a: "sink wf0 = Some []" and b: "\<not> database_disabled wf0" and c: "store_stdout_stderr wf0"
    by (simp_all add: wf0_def new_workflow_def)
  have d: "stdout_text ?j = Some (replicate 65536 CHR ''x'')" by simp
  have e: "MAX_OUTPUT_LENGTH < length (replicate 65536 CHR ''x'')"
    by (simp add: MAX_OUTPUT_LENGTH_def)
  have f: "take MAX_OUTPUT_LENGTH (replicate 65536 CHR ''x'') = replicate 65535 CHR ''x''"
    by (simp add: MAX_OUTPUT_LENGTH_def)
  from db_send_job_end_truncates_text [OF a b, of "\<lambda>c. False" ?j "Some 0"]
  obtain kw where
    k1: "sink (snd (db_send_job_end (\<lambda>c. False) ?j (Some 0) wf0)) = Some ([] @ [(''job_inst.main.end'', kw)])"
    and k2: "\<forall>t. store_stdout_stderr wf0 \<and> stdout_text ?j = Some t \<longrightarrow>
            (MAX_OUTPUT_LENGTH < length t \<longrightarrow>
               map_of kw ''stdout__text'' = Some (PStr (take MAX_OUTPUT_LENGTH t))
               \<and> length (take MAX_OUTPUT_LENGTH t) = MAX_OUTPUT_LENGTH
               \<and> (WARNING, ''truncating stdout for job %s'', [PStr (exec_job_id ?j)])
                   \<in> set (log (snd (db_send_job_end (\<lambda>c. False) ?j (Some 0) wf0))))
            \<and> (length t \<le> MAX_OUTPUT_LENGTH \<longrightarrow> map_of kw ''stdout__text'' = Some (PStr t))"
    by blast
  from k2 c d e have "map_of kw ''stdout__text'' = Some (PStr (take MAX_OUTPUT_LENGTH (replicate 65536 CHR ''x'')))"
    by blast
  with f have g: "map_of kw ''stdout__text'' = Some (PStr (replicate 65535 CHR ''x''))" by simp
  from k1 have k1': "sink (snd (db_send_job_end (\<lambda>c. False) ?j (Some 0) wf0)) = Some [(''job_inst.main.end'', kw)]"
    by simp
  from k1' g have "\<exists>kw. sink (snd (db_send_job_end (\<lambda>c. False) ?j (Some 0) wf0)) = Some [(''job_inst.main.end'', kw)]
          \<and> map_of kw ''stdout__text'' = Some (PStr (replicate 65535 CHR ''x''))"
    by blast
  with a b c e show ?thesis by blast
qed

section \<open>Wiping the instances that are fully terminal\<close>

lemma map_of_discard: "map_of (discard k d) = (map_of d)(k := None)"
  by (auto simp: discard_def has_key_def delete_conv')

lemma fold_delete_job_jobs:
  "map_of (jobs (fold delete_job ks s)) k = (if k \<in> set ks then None else map_of (jobs s) k)"
  by (induction ks arbitrary: s) (auto simp: delete_job_def map_of_discard)

lemma fold_delete_job_jobs_map:
  "map_of (jobs_map (fold delete_job ks s)) n = (if n \<in> fst ` set ks then None else map_of (jobs_map s) n)"
  by (induction ks arbitrary: s) (auto simp: delete_job_def map_of_discard)



lemma fold_delete_job_frame:
  "restart_count (fold delete_job ks s) = restart_count s
   \<and> job_submit_seq (fold delete_job ks s) = job_submit_seq s
   \<and> job_info (fold delete_job ks s) = job_info s"
  by (induction ks arbitrary: s) (auto simp: delete_job_def)











section \<open>The directory of a sub-workflow\<close>










section \<open>What adding a job does to the index\<close>

lemma has_key_iff: "has_key d k \<longleftrightarrow> k \<in> fst ` set d"
  by (simp add: has_key_def map_of_eq_None_iff)

lemma find_job_submit_seq_frame:
  "jobs (snd (find_job_submit_seq n sid s)) = jobs s
   \<and> jobs_map (snd (find_job_submit_seq n sid s)) = jobs_map s
   \<and> job_submit_seq (snd (find_job_submit_seq n sid s)) = job_submit_seq s
   \<and> job_counters (snd (find_job_submit_seq n sid s)) = job_counters s
   \<and> job_info (snd (find_job_submit_seq n sid s)) = job_info s
   \<and> wf_uuid (snd (find_job_submit_seq n sid s)) = wf_uuid s
   \<and> current_timestamp (snd (find_job_submit_seq n sid s)) = current_timestamp s"
  by (simp add: find_job_submit_seq_def logger_def split: option.splits)

lemma find_job_submit_seq_Some:
  "fst (find_job_submit_seq n sid s) = Some q \<Longrightarrow>
     map_of (jobs_map s) n = Some q \<and> has_key (jobs s) (n, q)"
  by (auto simp: find_job_submit_seq_def find_jobid_def has_key_def split: option.splits if_splits)

lemma add_job_counter_frame:
  "fst (add_job_counter n st q s) = Some q
   \<and> jobs_map (snd (add_job_counter n st q s)) = jobs_map s
   \<and> job_submit_seq (snd (add_job_counter n st q s)) = job_submit_seq s
   \<and> job_info (snd (add_job_counter n st q s)) = job_info s
   \<and> (\<forall>k. has_key (jobs (snd (add_job_counter n st q s))) k = has_key (jobs s) k)
   \<and> (\<forall>k. k \<noteq> (n, q) \<longrightarrow> map_of (jobs (snd (add_job_counter n st q s))) k = map_of (jobs s) k)"
  by (simp add: add_job_counter_def Let_def has_key_iff dom_map_entry map_of_map_entry)

lemma add_job_counter_instance:
  "map_of (jobs s) (n, q) = Some j \<Longrightarrow>
     \<exists>j'. map_of (jobs (snd (add_job_counter n st q s))) (n, q) = Some j'
          \<and> job_state j' = job_state j \<and> sched_id j' = sched_id j"
  by (simp add: add_job_counter_def Let_def map_of_map_entry)

lemma add_job_reuse:
  assumes "find_job_submit_seq n sid s = (Some q, s1)"
  shows "fst (add_job Job n st sid s) = Some q
       \<and> jobs_map (snd (add_job Job n st sid s)) = jobs_map s
       \<and> job_submit_seq (snd (add_job Job n st sid s)) = job_submit_seq s
       \<and> (\<forall>k. has_key (jobs (snd (add_job Job n st sid s))) k = has_key (jobs s) k)
       \<and> (\<forall>k. k \<noteq> (n, q) \<longrightarrow> map_of (jobs (snd (add_job Job n st sid s))) k = map_of (jobs s) k)"
proof -
  from assms have f: "fst (find_job_submit_seq n sid s) = Some q"
    and s1: "s1 = snd (find_job_submit_seq n sid s)" by simp_all
  from find_job_submit_seq_Some [OF f] obtain j where j: "map_of (jobs s) (n, q) = Some j"
    by (auto simp: has_key_def)
  have fr: "jobs s1 = jobs s" "jobs_map s1 = jobs_map s" "job_submit_seq s1 = job_submit_seq s"
    using find_job_submit_seq_frame [of n sid s] s1 by simp_all
  define my_job2 where "my_job2 = (if sid \<noteq> None then j\<lparr>sched_id := sid\<rparr> else j)
                         \<lparr>job_state := st, job_state_timestamp := current_timestamp s1\<rparr>"
  define s2 where "s2 = s1\<lparr>jobs := AList.update (n, q) my_job2 (jobs s1)\<rparr>"
  have a: "add_job Job n st sid s = add_job_counter n st q s2"
    using assms j fr by (simp add: add_job_def Let_def s2_def my_job2_def)
  have k: "has_key (jobs s2) k = has_key (jobs s) k" for k
    using j fr by (auto simp: s2_def has_key_def update_conv')
  have m: "k \<noteq> (n, q) \<Longrightarrow> map_of (jobs s2) k = map_of (jobs s) k" for k
    using fr by (simp add: s2_def update_conv')
  have o: "jobs_map s2 = jobs_map s" "job_submit_seq s2 = job_submit_seq s"
    using fr by (simp_all add: s2_def)
  from add_job_counter_frame [of n st q s2] a k m o show ?thesis by simp
qed

lemma add_job_create:
  assumes "fst (find_job_submit_seq n sid s) = None" and "\<not> has_key (jobs s) (n, job_submit_seq s)"
  shows "fst (add_job Job n st sid s) = Some (job_submit_seq s)
       \<and> jobs_map (snd (add_job Job n st sid s)) = AList.update n (job_submit_seq s) (jobs_map s)
       \<and> job_submit_seq (snd (add_job Job n st sid s)) = job_submit_seq s + 1
       \<and> (\<exists>j. map_of (jobs (snd (add_job Job n st sid s))) (n, job_submit_seq s) = Some j
               \<and> job_state j = st \<and> sched_id j = sid)
       \<and> (\<forall>k. k \<noteq> (n, job_submit_seq s) \<longrightarrow>
              map_of (jobs (snd (add_job Job n st sid s))) k = map_of (jobs s) k)"
proof -
  define s1 where "s1 = snd (find_job_submit_seq n sid s)"
  have f: "find_job_submit_seq n sid s = (None, s1)"
    using assms(1) by (simp add: s1_def prod_eq_iff)
  have fr: "jobs s1 = jobs s" "jobs_map s1 = jobs_map s" "job_submit_seq s1 = job_submit_seq s"
    using find_job_submit_seq_frame [of n sid s] by (simp_all add: s1_def)
  define q where "q = job_submit_seq s"
  define my_job where "my_job = (Job (wf_uuid s1) n q)
                           \<lparr>job_state := st, job_state_timestamp := current_timestamp s1,
                            sched_id := sid\<rparr>"
  define s2 where "s2 = s1\<lparr>jobs := AList.update (n, q) my_job (jobs s1),
                           jobs_map := AList.update n q (jobs_map s1),
                           job_submit_seq := job_submit_seq s1 + 1\<rparr>"
  have a: "add_job Job n st sid s = add_job_counter n st q s2"
    using f assms(2) fr by (simp add: add_job_def Let_def s2_def my_job_def q_def)
  have i: "map_of (jobs s2) (n, q) = Some my_job" by (simp add: s2_def update_conv')
  have m: "k \<noteq> (n, q) \<Longrightarrow> map_of (jobs s2) k = map_of (jobs s) k" for k
    using fr by (simp add: s2_def update_conv')
  have o: "jobs_map s2 = AList.update n q (jobs_map s)" "job_submit_seq s2 = job_submit_seq s + 1"
    using fr by (simp_all add: s2_def)
  from add_job_counter_instance [OF i, of st]
  obtain j' where j': "map_of (jobs (snd (add_job_counter n st q s2))) (n, q) = Some j'"
    "job_state j' = st" "sched_id j' = sid"
    by (auto simp: my_job_def)
  from add_job_counter_frame [of n st q s2] a m o j' show ?thesis
    unfolding q_def [symmetric] by auto
qed

lemma add_job_twice:
  assumes "fst (find_job_submit_seq n sid s) = None" and "has_key (jobs s) (n, job_submit_seq s)"
  shows "fst (add_job Job n st sid s) = None
       \<and> jobs_map (snd (add_job Job n st sid s)) = jobs_map s
       \<and> job_submit_seq (snd (add_job Job n st sid s)) = job_submit_seq s
       \<and> jobs (snd (add_job Job n st sid s)) = jobs s"
proof -
  define s1 where "s1 = snd (find_job_submit_seq n sid s)"
  have f: "find_job_submit_seq n sid s = (None, s1)"
    using assms(1) by (simp add: s1_def prod_eq_iff)
  have fr: "jobs s1 = jobs s" "jobs_map s1 = jobs_map s" "job_submit_seq s1 = job_submit_seq s"
    using find_job_submit_seq_frame [of n sid s] by (simp_all add: s1_def)
  show ?thesis using f assms(2) fr by (simp add: add_job_def Let_def logger_def)
qed

lemma index_consistent_iff:
  "index_consistent s \<longleftrightarrow>
     (\<forall>n q. has_key (jobs s) (n, q) \<longrightarrow> q < job_submit_seq s)
     \<and> (\<forall>n q. map_of (jobs_map s) n = Some q \<longrightarrow>
            has_key (jobs s) (n, q) \<and> (\<forall>q'. has_key (jobs s) (n, q') \<longrightarrow> q' \<le> q))"
proof -
  have a: "(\<forall>k \<in> set (map fst (jobs s)). snd k < job_submit_seq s)
           \<longleftrightarrow> (\<forall>n q. has_key (jobs s) (n, q) \<longrightarrow> q < job_submit_seq s)"
    by (force simp: has_key_iff)
  have b: "(\<forall>k \<in> set (map fst (jobs s)). fst k = n \<longrightarrow> snd k \<le> q)
           \<longleftrightarrow> (\<forall>q'. has_key (jobs s) (n, q') \<longrightarrow> q' \<le> q)" for n q
    by (force simp: has_key_iff)
  have c: "(\<forall>n \<in> set (map fst (jobs_map s)).
              case map_of (jobs_map s) n of None \<Rightarrow> True
              | Some q \<Rightarrow> has_key (jobs s) (n, q)
                          \<and> (\<forall>k \<in> set (map fst (jobs s)). fst k = n \<longrightarrow> snd k \<le> q))
           \<longleftrightarrow> (\<forall>n q. map_of (jobs_map s) n = Some q \<longrightarrow>
                  has_key (jobs s) (n, q) \<and> (\<forall>q'. has_key (jobs s) (n, q') \<longrightarrow> q' \<le> q))"
    (is "?L \<longleftrightarrow> ?R")
  proof
    assume l: ?L
    show ?R
    proof (intro allI impI)
      fix n q assume m: "map_of (jobs_map s) n = Some q"
      then have "(n, q) \<in> set (jobs_map s)" by (rule map_of_SomeD)
      then have "n \<in> set (map fst (jobs_map s))" by force
      with l m show "has_key (jobs s) (n, q) \<and> (\<forall>q'. has_key (jobs s) (n, q') \<longrightarrow> q' \<le> q)"
        unfolding b [symmetric] by fastforce
    qed
  next
    assume r: ?R
    show ?L
    proof
      fix n assume "n \<in> set (map fst (jobs_map s))"
      show "case map_of (jobs_map s) n of None \<Rightarrow> True
              | Some q \<Rightarrow> has_key (jobs s) (n, q)
                          \<and> (\<forall>k \<in> set (map fst (jobs s)). fst k = n \<longrightarrow> snd k \<le> q)"
        using r unfolding b by (simp split: option.splits)
    qed
  qed
  show ?thesis unfolding index_consistent_def a c ..
qed

lemma index_consistent_fresh: "index_consistent s \<Longrightarrow> \<not> has_key (jobs s) (n, job_submit_seq s)"
  unfolding index_consistent_iff by fastforce

lemma has_key_after_create:
  assumes "\<exists>j. map_of (jobs t) k0 = Some j" and "\<forall>k. k \<noteq> k0 \<longrightarrow> map_of (jobs t) k = map_of (jobs s) k"
  shows "has_key (jobs t) k \<longleftrightarrow> k = k0 \<or> has_key (jobs s) k"
proof (cases "k = k0")
  case True
  with assms(1) show ?thesis by (auto simp: has_key_def)
next
  case False
  with assms(2) have "map_of (jobs t) k = map_of (jobs s) k" by blast
  with False show ?thesis by (simp add: has_key_def)
qed

lemma add_job_index_consistent:
  assumes "index_consistent s"
  shows "index_consistent (snd (add_job Job n st sid s))"
proof (cases "fst (find_job_submit_seq n sid s)")
  case (Some q)
  then have "find_job_submit_seq n sid s = (Some q, snd (find_job_submit_seq n sid s))"
    by (simp add: prod_eq_iff)
  from add_job_reuse [OF this, of Job st] assms show ?thesis
    unfolding index_consistent_iff by simp
next
  case None
  let ?c = "job_submit_seq s"
  let ?t = "snd (add_job Job n st sid s)"
  from add_job_create [OF None index_consistent_fresh [OF assms], of Job st]
  have jm: "jobs_map ?t = AList.update n ?c (jobs_map s)"
    and cn: "job_submit_seq ?t = ?c + 1"
    and ex: "\<exists>j. map_of (jobs ?t) (n, ?c) = Some j"
    and ot: "\<forall>k. k \<noteq> (n, ?c) \<longrightarrow> map_of (jobs ?t) k = map_of (jobs s) k"
    by auto
  have hk: "has_key (jobs ?t) k \<longleftrightarrow> k = (n, ?c) \<or> has_key (jobs s) k" for k
    using has_key_after_create [OF ex ot] .
  from assms have i1: "\<And>m q. has_key (jobs s) (m, q) \<Longrightarrow> q < ?c"
    and i2: "\<And>m q. map_of (jobs_map s) m = Some q \<Longrightarrow> has_key (jobs s) (m, q)"
    and i3: "\<And>m q q'. map_of (jobs_map s) m = Some q \<Longrightarrow> has_key (jobs s) (m, q') \<Longrightarrow> q' \<le> q"
    unfolding index_consistent_iff by blast+
  show ?thesis
    unfolding index_consistent_iff
  proof (intro conjI allI impI)
    fix m q assume "has_key (jobs ?t) (m, q)"
    with hk i1 [of m q] show "q < job_submit_seq ?t" unfolding cn by auto
  next
    fix m q assume "map_of (jobs_map ?t) m = Some q"
    then have "(m = n \<and> q = ?c) \<or> (m \<noteq> n \<and> map_of (jobs_map s) m = Some q)"
      unfolding jm by (auto simp: update_conv' split: if_splits)
    with hk i2 show "has_key (jobs ?t) (m, q)" by auto
  next
    fix m q q' assume a: "map_of (jobs_map ?t) m = Some q" and b: "has_key (jobs ?t) (m, q')"
    from a have "(m = n \<and> q = ?c) \<or> (m \<noteq> n \<and> map_of (jobs_map s) m = Some q)"
      unfolding jm by (auto simp: update_conv' split: if_splits)
    then show "q' \<le> q"
    proof
      assume "m = n \<and> q = ?c"
      with b hk [of "(m, q')"] i1 [of n q'] show ?thesis by auto
    next
      assume "m \<noteq> n \<and> map_of (jobs_map s) m = Some q"
      with b hk [of "(m, q')"] i3 [of m q q'] show ?thesis by auto
    qed
  qed
qed

lemma start_wf_jobs:
  "map_of (jobs (start_wf s)) k = (if k \<in> set (jobs_to_delete s) then None else map_of (jobs s) k)"
  by (simp add: start_wf_def Let_def fold_delete_job_jobs)

lemma start_wf_jobs_map:
  "map_of (jobs_map (start_wf s)) n
     = (if n \<in> fst ` set (jobs_to_delete s) then None else map_of (jobs_map s) n)"
  by (simp add: start_wf_def Let_def fold_delete_job_jobs_map)

lemma start_wf_index_consistent:
  assumes "index_consistent s"
  shows "index_consistent (start_wf s)"
proof -
  have c: "job_submit_seq (start_wf s) = job_submit_seq s"
    by (simp add: start_wf_def Let_def fold_delete_job_frame)
  have hk: "has_key (jobs (start_wf s)) k \<longleftrightarrow> k \<notin> set (jobs_to_delete s) \<and> has_key (jobs s) k" for k
    by (simp add: has_key_def start_wf_jobs)
  have jm: "map_of (jobs_map (start_wf s)) n = Some q
            \<longleftrightarrow> n \<notin> fst ` set (jobs_to_delete s) \<and> map_of (jobs_map s) n = Some q" for n q
    by (simp add: start_wf_jobs_map)
  have nk: "n \<notin> fst ` set (jobs_to_delete s) \<Longrightarrow> (n, q) \<notin> set (jobs_to_delete s)" for n q
    by force
  from assms show ?thesis
    unfolding index_consistent_iff c hk jm using nk by blast
qed

lemma run_ops_index_consistent:
  "index_consistent s \<Longrightarrow> index_consistent (run_ops Job ops s)"
  unfolding run_ops_def
proof (induction ops arbitrary: s)
  case Nil
  then show ?case by simp
next
  case (Cons x ops)
  have "index_consistent (apply_op Job x s)"
    using Cons.prems by (cases x) (simp_all add: add_job_index_consistent start_wf_index_consistent)
  from Cons.IH [OF this] show ?case by simp
qed

lemma empty_index_consistent: "jobs s = [] \<Longrightarrow> jobs_map s = [] \<Longrightarrow> index_consistent s"
  by (simp add: index_consistent_def)

section \<open>A signal whose scheduler id does not match\<close>

lemma add_job_reuse_instance:
  assumes "find_job_submit_seq n sid s = (Some q, s1)" and "map_of (jobs s) (n, q) = Some j"
  shows "\<exists>j'. map_of (jobs (snd (add_job Job n st sid s))) (n, q) = Some j'
              \<and> job_state j' = st \<and> sched_id j' = (if sid \<noteq> None then sid else sched_id j)"
proof -
  from assms(1) have s1: "s1 = snd (find_job_submit_seq n sid s)" by simp
  have fr: "jobs s1 = jobs s"
    using find_job_submit_seq_frame [of n sid s] s1 by simp
  define my_job2 where "my_job2 = (if sid \<noteq> None then j\<lparr>sched_id := sid\<rparr> else j)
                         \<lparr>job_state := st, job_state_timestamp := current_timestamp s1\<rparr>"
  define s2 where "s2 = s1\<lparr>jobs := AList.update (n, q) my_job2 (jobs s1)\<rparr>"
  have a: "add_job Job n st sid s = add_job_counter n st q s2"
    using assms fr by (simp add: add_job_def Let_def s2_def my_job2_def)
  have i: "map_of (jobs s2) (n, q) = Some my_job2" by (simp add: s2_def update_conv')
  from add_job_counter_instance [OF i, of st] show ?thesis
    unfolding a by (auto simp: my_job2_def)
qed

text \<open>
  C2, as the code has it. In a state other than \<^verbatim>\<open>PRE_SCRIPT_SUCCESS\<close> and
  \<^verbatim>\<open>DAGMAN_SUBMIT\<close>, a signal whose scheduler id differs from the one the live instance
  has recorded finds no instance: \<^verbatim>\<open>add_job\<close> creates a new instance under the current
  value of the counter, which differs from the number of the live instance, and leaves
  the live instance as it is. In state \<^verbatim>\<open>PRE_SCRIPT_SUCCESS\<close> or \<^verbatim>\<open>DAGMAN_SUBMIT\<close>
  the live instance is found whatever the scheduler id of the signal is, also when it
  has none: \<^verbatim>\<open>add_job\<close> gives that instance the new state and the scheduler id of the
  signal, and creates no instance.
\<close>

theorem add_job_sched_id_mismatch_creates_instance:
  assumes "index_consistent s"
    and "find_jobid n s = Some q" and "map_of (jobs s) (n, q) = Some j"
  shows "(job_state j \<noteq> ''PRE_SCRIPT_SUCCESS'' \<and> job_state j \<noteq> ''DAGMAN_SUBMIT''
          \<and> sched_id j \<noteq> Some sid \<longrightarrow>
            find_job_submit_seq n (Some sid) s = (None, s)
            \<and> fst (add_job Job n st (Some sid) s) = Some (job_submit_seq s)
            \<and> job_submit_seq s \<noteq> q
            \<and> map_of (jobs (snd (add_job Job n st (Some sid) s))) (n, q) = Some j
            \<and> (\<exists>j'. map_of (jobs (snd (add_job Job n st (Some sid) s))) (n, job_submit_seq s) = Some j'
                     \<and> job_state j' = st \<and> sched_id j' = Some sid)
            \<and> find_jobid n (snd (add_job Job n st (Some sid) s)) = Some (job_submit_seq s)
            \<and> job_submit_seq (snd (add_job Job n st (Some sid) s)) = job_submit_seq s + 1)
       \<and> (job_state j = ''PRE_SCRIPT_SUCCESS'' \<or> job_state j = ''DAGMAN_SUBMIT'' \<longrightarrow>
            (\<forall>any. find_job_submit_seq n any s = (Some q, s))
            \<and> fst (add_job Job n st (Some sid) s) = Some q
            \<and> (\<exists>j'. map_of (jobs (snd (add_job Job n st (Some sid) s))) (n, q) = Some j'
                     \<and> job_state j' = st \<and> sched_id j' = Some sid)
            \<and> (\<forall>k. has_key (jobs (snd (add_job Job n st (Some sid) s))) k = has_key (jobs s) k)
            \<and> find_jobid n (snd (add_job Job n st (Some sid) s)) = Some q
            \<and> job_submit_seq (snd (add_job Job n st (Some sid) s)) = job_submit_seq s)"
proof (intro conjI impI)
  let ?t = "snd (add_job Job n st (Some sid) s)"
  assume h: "job_state j \<noteq> ''PRE_SCRIPT_SUCCESS'' \<and> job_state j \<noteq> ''DAGMAN_SUBMIT''
             \<and> sched_id j \<noteq> Some sid"
  have f: "find_job_submit_seq n (Some sid) s = (None, s)"
    using assms(2,3) h by (simp add: find_job_submit_seq_def)
  then have fn: "fst (find_job_submit_seq n (Some sid) s) = None" by simp
  have fresh: "\<not> has_key (jobs s) (n, job_submit_seq s)"
    using assms(1) by (rule index_consistent_fresh)
  from assms(3) have "has_key (jobs s) (n, q)" by (simp add: has_key_def)
  with fresh have ne: "job_submit_seq s \<noteq> q" by auto
  from add_job_create [OF fn fresh, of Job st]
  have r: "fst (add_job Job n st (Some sid) s) = Some (job_submit_seq s)"
    and jm: "jobs_map ?t = AList.update n (job_submit_seq s) (jobs_map s)"
    and cn: "job_submit_seq ?t = job_submit_seq s + 1"
    and ex: "\<exists>j'. map_of (jobs ?t) (n, job_submit_seq s) = Some j'
                  \<and> job_state j' = st \<and> sched_id j' = Some sid"
    and ot: "\<forall>k. k \<noteq> (n, job_submit_seq s) \<longrightarrow> map_of (jobs ?t) k = map_of (jobs s) k"
    by blast+
  from ot ne assms(3) have old: "map_of (jobs ?t) (n, q) = Some j" by simp
  have fj: "find_jobid n ?t = Some (job_submit_seq s)"
    unfolding jm find_jobid_def has_key_def by (simp add: update_conv')
  show "find_job_submit_seq n (Some sid) s = (None, s)" by (rule f)
  show "fst (add_job Job n st (Some sid) s) = Some (job_submit_seq s)" by (rule r)
  show "job_submit_seq s \<noteq> q" by (rule ne)
  show "map_of (jobs ?t) (n, q) = Some j" by (rule old)
  show "\<exists>j'. map_of (jobs ?t) (n, job_submit_seq s) = Some j' \<and> job_state j' = st \<and> sched_id j' = Some sid"
    by (rule ex)
  show "find_jobid n ?t = Some (job_submit_seq s)" by (rule fj)
  show "job_submit_seq ?t = job_submit_seq s + 1" by (rule cn)
next
  let ?t = "snd (add_job Job n st (Some sid) s)"
  assume h: "job_state j = ''PRE_SCRIPT_SUCCESS'' \<or> job_state j = ''DAGMAN_SUBMIT''"
  have f: "find_job_submit_seq n any s = (Some q, s)" for any
    using assms(2,3) h by (auto simp: find_job_submit_seq_def)
  from add_job_reuse [OF f [of "Some sid"], of Job st]
  have r: "fst (add_job Job n st (Some sid) s) = Some q"
    and jm: "jobs_map ?t = jobs_map s"
    and cn: "job_submit_seq ?t = job_submit_seq s"
    and ks: "\<forall>k. has_key (jobs ?t) k = has_key (jobs s) k"
    by blast+
  from add_job_reuse_instance [OF f [of "Some sid"] assms(3), of Job st]
  have ex: "\<exists>j'. map_of (jobs ?t) (n, q) = Some j' \<and> job_state j' = st \<and> sched_id j' = Some sid"
    by simp
  have fj: "find_jobid n ?t = Some q"
    using assms(2) unfolding jm find_jobid_def by simp
  show "\<forall>any. find_job_submit_seq n any s = (Some q, s)" using f by blast
  show "fst (add_job Job n st (Some sid) s) = Some q" by (rule r)
  show "\<exists>j'. map_of (jobs ?t) (n, q) = Some j' \<and> job_state j' = st \<and> sched_id j' = Some sid"
    by (rule ex)
  show "\<forall>k. has_key (jobs ?t) k = has_key (jobs s) k" by (rule ks)
  show "find_jobid n ?t = Some q" by (rule fj)
  show "job_submit_seq ?t = job_submit_seq s" by (rule cn)
qed

theorem add_job_sched_id_mismatch_witness:
  "index_consistent wf_running
   \<and> find_jobid ''A'' wf_running = Some 1
   \<and> map_of (jobs wf_running) (''A'', 1) = Some (snd (job_at ''A'' 1 ''EXECUTE'' ''41.0''))
   \<and> sched_id (snd (job_at ''A'' 1 ''EXECUTE'' ''41.0'')) = Some ''41.0''
   \<and> fst (add_job blank_job ''A'' ''SUBMIT'' (Some ''42.0'') wf_running) = Some 3
   \<and> map_of (jobs (snd (add_job blank_job ''A'' ''SUBMIT'' (Some ''42.0'') wf_running))) (''A'', 1)
       = Some (snd (job_at ''A'' 1 ''EXECUTE'' ''41.0''))
   \<and> find_jobid ''B'' wf_running = Some 2
   \<and> job_state (snd (job_at ''B'' 2 ''DAGMAN_SUBMIT'' ''7.0'')) = ''DAGMAN_SUBMIT''
   \<and> fst (add_job blank_job ''B'' ''SUBMIT'' (Some ''8.0'') wf_running) = Some 2
   \<and> job_submit_seq (snd (add_job blank_job ''B'' ''SUBMIT'' (Some ''8.0'') wf_running)) = 3"
proof -
  let ?a = "snd (job_at ''A'' 1 ''EXECUTE'' ''41.0'')"
  let ?b = "snd (job_at ''B'' 2 ''DAGMAN_SUBMIT'' ''7.0'')"
  have inv: "index_consistent wf_running"
    by (simp add: index_consistent_def wf_running_def job_at_def has_key_def)
  have fa: "find_jobid ''A'' wf_running = Some 1" and fb: "find_jobid ''B'' wf_running = Some 2"
    by (simp_all add: find_jobid_def has_key_def wf_running_def)
  have ma: "map_of (jobs wf_running) (''A'', 1) = Some ?a"
    and mb: "map_of (jobs wf_running) (''B'', 2) = Some ?b"
    by (simp_all add: wf_running_def job_at_def)
  have ha: "job_state ?a \<noteq> ''PRE_SCRIPT_SUCCESS'' \<and> job_state ?a \<noteq> ''DAGMAN_SUBMIT''
            \<and> sched_id ?a \<noteq> Some ''42.0''"
    and sa: "sched_id ?a = Some ''41.0''"
    and hb: "job_state ?b = ''DAGMAN_SUBMIT''"
    by (simp_all add: job_at_def)
  have c: "job_submit_seq wf_running = 3" by (simp add: wf_running_def)
  from add_job_sched_id_mismatch_creates_instance [OF inv fa ma, of "''42.0''" blank_job "''SUBMIT''"] ha
  have a1: "fst (add_job blank_job ''A'' ''SUBMIT'' (Some ''42.0'') wf_running) = Some (job_submit_seq wf_running)"
    and a2: "map_of (jobs (snd (add_job blank_job ''A'' ''SUBMIT'' (Some ''42.0'') wf_running))) (''A'', 1)
             = Some ?a"
    by blast+
  from add_job_sched_id_mismatch_creates_instance [OF inv fb mb, of "''8.0''" blank_job "''SUBMIT''"] hb
  have b1: "fst (add_job blank_job ''B'' ''SUBMIT'' (Some ''8.0'') wf_running) = Some 2"
    and b2: "job_submit_seq (snd (add_job blank_job ''B'' ''SUBMIT'' (Some ''8.0'') wf_running))
             = job_submit_seq wf_running"
    by blast+
  from inv fa ma sa a1 a2 fb hb b1 b2 show ?thesis unfolding c by simp
qed

text \<open>
  The claim as it is written fails for the two states in which an instance is reused.
  The instance of \<^verbatim>\<open>A\<close> waits in state \<^verbatim>\<open>PRE_SCRIPT_SUCCESS\<close> under the scheduler id
  \<^verbatim>\<open>41.0\<close>, and the signal carries \<^verbatim>\<open>42.0\<close>; the instance of \<^verbatim>\<open>B\<close> waits in state
  \<^verbatim>\<open>DAGMAN_SUBMIT\<close> under \<^verbatim>\<open>7.0\<close>, and the signal carries \<^verbatim>\<open>8.0\<close>. In both cases
  the instance is found, takes the new state and the scheduler id of the signal, and no
  instance is created.
\<close>

theorem add_job_sched_id_mismatch_counterexample:
  "map_of (jobs wf_waiting) (''A'', 1)
     = Some ((blank_job None ''A'' 1)\<lparr>job_state := ''PRE_SCRIPT_SUCCESS'', sched_id := Some ''41.0''\<rparr>)
   \<and> fst (find_job_submit_seq ''A'' (Some ''42.0'') wf_waiting) = Some 1
   \<and> fst (add_job blank_job ''A'' ''SUBMIT'' (Some ''42.0'') wf_waiting) = Some 1
   \<and> map fst (jobs (snd (add_job blank_job ''A'' ''SUBMIT'' (Some ''42.0'') wf_waiting)))
       = [(''A'', 1), (''B'', 2)]
   \<and> map_of (jobs (snd (add_job blank_job ''A'' ''SUBMIT'' (Some ''42.0'') wf_waiting))) (''A'', 1)
       = Some ((blank_job None ''A'' 1)\<lparr>job_state := ''SUBMIT'', sched_id := Some ''42.0''\<rparr>)
   \<and> map_of (jobs wf_waiting) (''B'', 2)
       = Some ((blank_job None ''B'' 2)\<lparr>job_state := ''DAGMAN_SUBMIT'', sched_id := Some ''7.0''\<rparr>)
   \<and> fst (find_job_submit_seq ''B'' (Some ''8.0'') wf_waiting) = Some 2
   \<and> fst (add_job blank_job ''B'' ''EXECUTE'' (Some ''8.0'') wf_waiting) = Some 2
   \<and> map fst (jobs (snd (add_job blank_job ''B'' ''EXECUTE'' (Some ''8.0'') wf_waiting)))
       = [(''A'', 1), (''B'', 2)]
   \<and> map_of (jobs (snd (add_job blank_job ''B'' ''EXECUTE'' (Some ''8.0'') wf_waiting))) (''B'', 2)
       = Some ((blank_job None ''B'' 2)\<lparr>job_state := ''EXECUTE'', sched_id := Some ''8.0''\<rparr>)"
  by (simp add: add_job_def find_job_submit_seq_def find_jobid_def has_key_def add_job_counter_def
      wf_waiting_def job_at_def blank_job_def wf0_def new_workflow_def Let_def)

section \<open>A signal for a job without static information\<close>

lemma find_job_submit_seq_job_info:
  "find_job_submit_seq n sid (s\<lparr>job_info := info\<rparr>)
     = (fst (find_job_submit_seq n sid s), (snd (find_job_submit_seq n sid s))\<lparr>job_info := info\<rparr>)"
  by (simp add: find_job_submit_seq_def find_jobid_def logger_def split: option.splits)

lemma add_job_counter_job_info:
  "add_job_counter n st q (s\<lparr>job_info := info\<rparr>)
     = (fst (add_job_counter n st q s), (snd (add_job_counter n st q s))\<lparr>job_info := info\<rparr>)"
  by (simp add: add_job_counter_def Let_def)

lemma add_job_job_info:
  "add_job Job n st sid (s\<lparr>job_info := info\<rparr>)
     = (fst (add_job Job n st sid s), (snd (add_job Job n st sid s))\<lparr>job_info := info\<rparr>)"
proof -
  obtain r s1 where f: "find_job_submit_seq n sid s = (r, s1)"
    by (cases "find_job_submit_seq n sid s")
  then have f': "find_job_submit_seq n sid (s\<lparr>job_info := info\<rparr>) = (r, s1\<lparr>job_info := info\<rparr>)"
    by (simp add: find_job_submit_seq_job_info)
  show ?thesis
  proof (cases r)
    case None
    show ?thesis
    proof (cases "has_key (jobs s1) (n, job_submit_seq s1)")
      case True
      with None f f' show ?thesis by (simp add: add_job_def Let_def logger_def)
    next
      case False
      define t where "t = s1\<lparr>jobs := AList.update (n, job_submit_seq s1)
                                 ((Job (wf_uuid s1) n (job_submit_seq s1))
                                    \<lparr>job_state := st, job_state_timestamp := current_timestamp s1,
                                     sched_id := sid\<rparr>) (jobs s1),
                              jobs_map := AList.update n (job_submit_seq s1) (jobs_map s1),
                              job_submit_seq := job_submit_seq s1 + 1\<rparr>"
      have a: "add_job Job n st sid s = add_job_counter n st (job_submit_seq s1) t"
        using None False f by (simp add: add_job_def Let_def t_def)
      have b: "add_job Job n st sid (s\<lparr>job_info := info\<rparr>)
               = add_job_counter n st (job_submit_seq s1) (t\<lparr>job_info := info\<rparr>)"
        using None False f'
        apply (simp add: add_job_def Let_def)
        apply (rule arg_cong [where f = "add_job_counter n st (job_submit_seq s1)"])
        apply (simp add: t_def)
        done
      show ?thesis unfolding a b by (rule add_job_counter_job_info)
    qed
  next
    case (Some q)
    show ?thesis
    proof (cases "map_of (jobs s1) (n, q)")
      case None
      with Some f f' show ?thesis by (simp add: add_job_def Let_def logger_def)
    next
      case (Some j)
      define t where "t = s1\<lparr>jobs := AList.update (n, q)
                                 ((if sid \<noteq> None then j\<lparr>sched_id := sid\<rparr> else j)
                                    \<lparr>job_state := st, job_state_timestamp := current_timestamp s1\<rparr>)
                                 (jobs s1)\<rparr>"
      have a: "add_job Job n st sid s = add_job_counter n st q t"
        using \<open>r = Some q\<close> Some f by (simp add: add_job_def Let_def t_def)
      have b: "add_job Job n st sid (s\<lparr>job_info := info\<rparr>) = add_job_counter n st q (t\<lparr>job_info := info\<rparr>)"
        using \<open>r = Some q\<close> Some f'
        apply (simp add: add_job_def Let_def split del: if_split)
        apply (rule arg_cong [where f = "add_job_counter n st q"])
        apply (simp add: t_def)
        done
      show ?thesis unfolding a b by (rule add_job_counter_job_info)
    qed
  qed
qed

text \<open>
  C6, as the code has it. \<^verbatim>\<open>add_job\<close> never looks at the static information: with any
  table of static information it returns the same value and leaves the same workflow.
  So a signal for a job name without static information is not dropped: when no
  instance of the name is found to reuse, \<^verbatim>\<open>add_job\<close> creates one under the current
  value of the counter and returns that number.
\<close>

theorem add_job_ignores_static_info:
  assumes "\<not> has_key (job_info s) n" and "index_consistent s"
    and "fst (find_job_submit_seq n sid s) = None"
  shows "fst (add_job Job n st sid s) = Some (job_submit_seq s)
       \<and> has_key (jobs (snd (add_job Job n st sid s))) (n, job_submit_seq s)
       \<and> \<not> has_key (job_info (snd (add_job Job n st sid s))) n
       \<and> (\<forall>info. add_job Job n st sid (s\<lparr>job_info := info\<rparr>)
             = (fst (add_job Job n st sid s), (snd (add_job Job n st sid s))\<lparr>job_info := info\<rparr>))"
proof -
  from add_job_create [OF assms(3) index_consistent_fresh [OF assms(2)], of Job st]
  have r: "fst (add_job Job n st sid s) = Some (job_submit_seq s)"
    and k: "has_key (jobs (snd (add_job Job n st sid s))) (n, job_submit_seq s)"
    by (auto simp: has_key_def)
  have noop: "s\<lparr>job_info := job_info s\<rparr> = s" by simp
  have "add_job Job n st sid (s\<lparr>job_info := job_info s\<rparr>)
        = (fst (add_job Job n st sid s), (snd (add_job Job n st sid s))\<lparr>job_info := job_info s\<rparr>)"
    by (rule add_job_job_info)
  then have "snd (add_job Job n st sid s) = (snd (add_job Job n st sid s))\<lparr>job_info := job_info s\<rparr>"
    unfolding noop by (metis snd_conv)
  then have "job_info (snd (add_job Job n st sid s))
             = job_info ((snd (add_job Job n st sid s))\<lparr>job_info := job_info s\<rparr>)"
    by (rule arg_cong)
  then have i: "job_info (snd (add_job Job n st sid s)) = job_info s" by simp
  from assms(1) r k i show ?thesis by (simp add: add_job_job_info)
qed

theorem add_job_ignores_static_info_witness:
  "job_info wf0 = [] \<and> index_consistent wf0
   \<and> fst (find_job_submit_seq ''A'' None wf0) = None
   \<and> fst (add_job blank_job ''A'' ''SUBMIT'' None wf0) = Some 1
   \<and> has_key (jobs (snd (add_job blank_job ''A'' ''SUBMIT'' None wf0))) (''A'', 1)"
proof -
  have a: "job_info wf0 = []" and c: "job_submit_seq wf0 = 1"
    by (simp_all add: wf0_def new_workflow_def)
  then have a': "\<not> has_key (job_info wf0) ''A''" by (simp add: has_key_def)
  have b: "index_consistent wf0"
    by (rule empty_index_consistent) (simp_all add: wf0_def new_workflow_def)
  have f: "fst (find_job_submit_seq ''A'' None wf0) = None"
    by (simp add: find_job_submit_seq_def find_jobid_def has_key_def wf0_def new_workflow_def)
  from add_job_ignores_static_info [OF a' b f, of blank_job "''SUBMIT''"] a b f
  show ?thesis unfolding c by blast
qed

text \<open>
  The claim as it is written fails on a workflow without any static information: the
  signal for the job \<^verbatim>\<open>A\<close> is not dropped, nothing is logged, and the instance
  \<^verbatim>\<open>(A, 1)\<close> is created.
\<close>

theorem add_job_unknown_job_counterexample:
  "job_info wf0 = []
   \<and> fst (add_job blank_job ''A'' ''SUBMIT'' None wf0) = Some 1
   \<and> map fst (jobs (snd (add_job blank_job ''A'' ''SUBMIT'' None wf0))) = [(''A'', 1)]
   \<and> log (snd (add_job blank_job ''A'' ''SUBMIT'' None wf0)) = []"
  by (simp add: add_job_def find_job_submit_seq_def find_jobid_def has_key_def add_job_counter_def
      blank_job_def wf0_def new_workflow_def Let_def)

section \<open>The name of a job leads to its latest instance\<close>

text \<open>
  C9. In every workflow reached from an empty index by signals that add jobs and by
  starts of the controller, a name in \<open>jobs_map\<close> is mapped to an instance of that name
  in \<open>jobs\<close>, no instance of the name has a greater number, and an update of the job
  state that names no number is applied to that instance. \<^verbatim>\<open>add_job\<close> either leaves
  \<open>jobs_map\<close> and the set of instances alone, or creates the instance numbered by the
  counter, greater than the number of every instance of the name so far, and maps the
  name to it.
\<close>

theorem jobs_map_names_latest_instance:
  assumes "jobs s0 = []" and "jobs_map s0 = []" and "s = run_ops Job ops s0"
  shows "(\<forall>n q. find_jobid n s = Some q \<longrightarrow>
            (\<exists>j. map_of (jobs s) (n, q) = Some j
                  \<and> update_job_state_find n None s = (Some ((n, q), j), s))
            \<and> (\<forall>q'. has_key (jobs s) (n, q') \<longrightarrow> q' \<le> q))
       \<and> (\<forall>m st sid.
            (jobs_map (snd (add_job Job m st sid s)) = jobs_map s
               \<and> (\<forall>k. has_key (jobs (snd (add_job Job m st sid s))) k = has_key (jobs s) k))
          \<or> (fst (add_job Job m st sid s) = Some (job_submit_seq s)
               \<and> \<not> has_key (jobs s) (m, job_submit_seq s)
               \<and> has_key (jobs (snd (add_job Job m st sid s))) (m, job_submit_seq s)
               \<and> jobs_map (snd (add_job Job m st sid s)) = AList.update m (job_submit_seq s) (jobs_map s)
               \<and> (\<forall>q'. has_key (jobs s) (m, q') \<longrightarrow> q' < job_submit_seq s)))"
proof -
  have inv: "index_consistent s"
    unfolding assms(3) using assms(1,2) by (intro run_ops_index_consistent empty_index_consistent)
  then have i1: "\<And>m q. has_key (jobs s) (m, q) \<Longrightarrow> q < job_submit_seq s"
    and i2: "\<And>m q. map_of (jobs_map s) m = Some q \<Longrightarrow> has_key (jobs s) (m, q)"
    and i3: "\<And>m q q'. map_of (jobs_map s) m = Some q \<Longrightarrow> has_key (jobs s) (m, q') \<Longrightarrow> q' \<le> q"
    unfolding index_consistent_iff by blast+
  have first: "(\<exists>j. map_of (jobs s) (n, q) = Some j
                  \<and> update_job_state_find n None s = (Some ((n, q), j), s))
            \<and> (\<forall>q'. has_key (jobs s) (n, q') \<longrightarrow> q' \<le> q)"
    if "find_jobid n s = Some q" for n q
  proof -
    from that have m: "map_of (jobs_map s) n = Some q"
      by (simp add: find_jobid_def split: if_splits)
    from i2 [OF m] obtain j where j: "map_of (jobs s) (n, q) = Some j"
      by (auto simp: has_key_def)
    from m j have "update_job_state_find n None s = (Some ((n, q), j), s)"
      by (simp add: update_job_state_find_def has_key_def Let_def)
    with j i3 [OF m] show ?thesis by blast
  qed
  have second: "(jobs_map (snd (add_job Job m st sid s)) = jobs_map s
               \<and> (\<forall>k. has_key (jobs (snd (add_job Job m st sid s))) k = has_key (jobs s) k))
          \<or> (fst (add_job Job m st sid s) = Some (job_submit_seq s)
               \<and> \<not> has_key (jobs s) (m, job_submit_seq s)
               \<and> has_key (jobs (snd (add_job Job m st sid s))) (m, job_submit_seq s)
               \<and> jobs_map (snd (add_job Job m st sid s)) = AList.update m (job_submit_seq s) (jobs_map s)
               \<and> (\<forall>q'. has_key (jobs s) (m, q') \<longrightarrow> q' < job_submit_seq s))"
    for m st sid
  proof (cases "fst (find_job_submit_seq m sid s)")
    case (Some q)
    then have "find_job_submit_seq m sid s = (Some q, snd (find_job_submit_seq m sid s))"
      by (simp add: prod_eq_iff)
    from add_job_reuse [OF this, of Job st] show ?thesis by blast
  next
    case None
    have fresh: "\<not> has_key (jobs s) (m, job_submit_seq s)"
      using inv by (rule index_consistent_fresh)
    from add_job_create [OF None fresh, of Job st]
    have "fst (add_job Job m st sid s) = Some (job_submit_seq s)"
      and "has_key (jobs (snd (add_job Job m st sid s))) (m, job_submit_seq s)"
      and "jobs_map (snd (add_job Job m st sid s)) = AList.update m (job_submit_seq s) (jobs_map s)"
      by (auto simp: has_key_def)
    with fresh i1 show ?thesis by blast
  qed
  from first second show ?thesis by blast
qed

theorem jobs_map_names_latest_instance_witness:
  "jobs wf0 = [] \<and> jobs_map wf0 = []
   \<and> find_jobid ''A'' (run_ops blank_job [AddJob ''A'' ''SUBMIT'' None, AddJob ''A'' ''SUBMIT'' None] wf0)
       = Some 2
   \<and> has_key (jobs (run_ops blank_job [AddJob ''A'' ''SUBMIT'' None, AddJob ''A'' ''SUBMIT'' None] wf0))
       (''A'', 1)
   \<and> (\<exists>j. update_job_state_find ''A'' None
              (run_ops blank_job [AddJob ''A'' ''SUBMIT'' None, AddJob ''A'' ''SUBMIT'' None] wf0)
            = (Some ((''A'', 2), j),
               run_ops blank_job [AddJob ''A'' ''SUBMIT'' None, AddJob ''A'' ''SUBMIT'' None] wf0))"
proof -
  let ?s = "run_ops blank_job [AddJob ''A'' ''SUBMIT'' None, AddJob ''A'' ''SUBMIT'' None] wf0"
  have a: "jobs wf0 = []" and b: "jobs_map wf0 = []"
    by (simp_all add: wf0_def new_workflow_def)
  have c: "find_jobid ''A'' ?s = Some 2"
    by (simp add: run_ops_def add_job_def find_job_submit_seq_def find_jobid_def has_key_def
        add_job_counter_def blank_job_def wf0_def new_workflow_def Let_def)
  have d: "has_key (jobs ?s) (''A'', 1)"
    by (simp add: run_ops_def add_job_def find_job_submit_seq_def find_jobid_def has_key_def
        add_job_counter_def blank_job_def wf0_def new_workflow_def Let_def)
  from jobs_map_names_latest_instance [OF a b refl, of blank_job
      "[AddJob ''A'' ''SUBMIT'' None, AddJob ''A'' ''SUBMIT'' None]"] c
  have "\<exists>j. update_job_state_find ''A'' None ?s = (Some ((''A'', 2), j), ?s)" by blast
  with a b c d show ?thesis by blast
qed

section \<open>Starting on a recovery file\<close>

lemma read_state_lines_frame:
  "previous_processed_line (read_state_lines fn ls s) = previous_processed_line s
   \<and> replay_mode (read_state_lines fn ls s) = replay_mode s"
  by (induction fn ls s rule: read_state_lines.induct) (simp_all add: logger_def)

lemma read_workflow_state_frame:
  "previous_processed_line (read_workflow_state f s) = previous_processed_line s
   \<and> replay_mode (read_workflow_state f s) = replay_mode s"
  by (simp add: read_workflow_state_def read_state_lines_frame logger_def split: option.splits)

lemma output_to_db_notified: "notified (output_to_db raises e k s) = notified s"
  by (simp add: output_to_db_def logger_def Let_def split: option.splits)

lemma db_send_wf_state_notified: "notified (db_send_wf_state raises st s) = notified s"
  by (simp add: db_send_wf_state_def output_to_db_notified logger_def Let_def split: option.splits)

lemma change_wf_state_no_notification:
  assumes "line s < previous_processed_line s"
  shows "notified (change_wf_state raises st s) = notified s"
proof -
  have "fst (check_notifications t) = False \<and> notified (snd (check_notifications t)) = notified t"
    if "line t < previous_processed_line t" for t
    using that by (simp add: check_notifications_def logger_def)
  then show ?thesis
    using assms
    by (simp add: change_wf_state_def db_send_wf_state_notified logger_def Let_def split_beta)
qed

lemma change_wf_state_notification:
  assumes "previous_processed_line s \<le> line s" and "enable_notifications s"
    and "notifications_manager s"
  shows "notified (change_wf_state raises st s)
         = notified s @ [(''process_workflow_notifications'', [PStr st])]"
proof -
  have "check_notifications t = (True, t)"
    if "previous_processed_line t \<le> line t" "enable_notifications t" for t
    using that by (simp add: check_notifications_def)
  then show ?thesis
    using assms
    by (simp add: change_wf_state_def db_send_wf_state_notified logger_def Let_def)
qed

lemma output_to_db_sink:
  "sink s = Some sent \<Longrightarrow> \<not> database_disabled s \<Longrightarrow>
     sink (output_to_db raises e k s) = Some (sent @ [(e, k)])"
  by (simp add: output_to_db_def logger_def Let_def)

lemma db_send_wf_state_sink:
  assumes "sink s = Some sent" and "\<not> database_disabled s"
  shows "\<exists>kw. sink (db_send_wf_state raises (Some st) s) = Some (sent @ [(''xwf.'' @ st, kw)])"
proof -
  have l: "sink (logger lv fmt args s) = Some sent \<and> \<not> database_disabled (logger lv fmt args s)"
    for lv fmt args
    using assms by (simp add: logger_def)
  show ?thesis
    using assms l
    by (simp add: db_send_wf_state_def Let_def output_to_db_sink)
qed

lemma change_wf_state_sink:
  assumes "sink s = Some sent" and "\<not> database_disabled s"
  shows "\<exists>kw. sink (change_wf_state raises st s) = Some (sent @ [(''xwf.'' @ st, kw)])"
proof -
  have c: "sink (snd (check_notifications t)) = sink t
           \<and> database_disabled (snd (check_notifications t)) = database_disabled t" for t
    by (simp add: check_notifications_def logger_def)
  define s1 where "s1 =
        (if st = ''start'' then
           (logger INFO ''DAGMan starting with condor id %s'' [py_str_opt (dagman_condor_id s)] s)
             \<lparr>JSDB := JSDB s @ [str_int (current_timestamp s) @ '' INTERNAL *** DAGMAN_STARTED ''
                                 @ str_opt (dagman_condor_id s) @ '' ***'' @ [CHR 0x0A]],
              restart_count := restart_count s + 1\<rparr>
         else if st = ''end'' then
           s\<lparr>JSDB := JSDB s @ [str_int (current_timestamp s) @ '' INTERNAL *** DAGMAN_FINISHED ''
                                @ str_int_opt (dagman_exit_code s) @ '' ***'' @ [CHR 0x0A]]\<rparr>
         else s)"
  define s3 where "s3 =
        (if fst (check_notifications s1) \<and> notifications_manager (snd (check_notifications s1))
         then (snd (check_notifications s1))
                \<lparr>notified := notified (snd (check_notifications s1))
                               @ [(''process_workflow_notifications'', [PStr st])]\<rparr>
         else snd (check_notifications s1))"
  have e: "change_wf_state raises st s = db_send_wf_state raises (Some st) s3"
    by (simp add: change_wf_state_def Let_def split_beta s1_def s3_def)
  have "sink s1 = Some sent \<and> \<not> database_disabled s1"
    using assms by (simp add: s1_def logger_def)
  with c [of s1] have "sink s3 = Some sent" and "\<not> database_disabled s3"
    by (simp_all add: s3_def)
  from db_send_wf_state_sink [OF this] show ?thesis unfolding e .
qed

text \<open>
  C3, as the code has it. With replay mode off and a recovery file that records an
  offset \<open>P\<close> other than zero, the constructor takes \<open>P\<close> as the line the previous
  daemon processed last and resets \<open>last_processed_line\<close> to zero. While the current
  line is below \<open>P\<close>, \<^verbatim>\<open>check_notifications\<close> returns \<open>False\<close> and a change of the
  workflow state issues no notification; from line \<open>P\<close> on, \<^verbatim>\<open>check_notifications\<close>
  returns whether notifications are enabled, and with a notifications manager a change
  of the workflow state issues its notification. Events are not held back: below \<open>P\<close>
  too, \<^verbatim>\<open>output_to_db\<close> passes every event to a sink that is not disabled, and so do a
  change of the workflow state and the end of a main job.
\<close>

theorem init_recover_enters_recovery_mode:
  assumes "\<not> replay_mode s" and "P \<noteq> 0"
  shows "previous_processed_line (init_recover sf True (Some [Line ''line_processed'' (Some P)]) s) = P
       \<and> last_processed_line (init_recover sf True (Some [Line ''line_processed'' (Some P)]) s) = 0
       \<and> (\<forall>t. previous_processed_line t = P \<and> line t < P \<longrightarrow>
              fst (check_notifications t) = False
              \<and> (\<forall>raises st. notified (change_wf_state raises st t) = notified t))
       \<and> (\<forall>t. previous_processed_line t = P \<and> P \<le> line t \<longrightarrow>
              fst (check_notifications t) = enable_notifications t
              \<and> (enable_notifications t \<and> notifications_manager t \<longrightarrow>
                   (\<forall>raises st. notified (change_wf_state raises st t)
                      = notified t @ [(''process_workflow_notifications'', [PStr st])])))
       \<and> (\<forall>t sent. previous_processed_line t = P \<and> line t < P \<and> sink t = Some sent
                     \<and> \<not> database_disabled t \<longrightarrow>
              (\<forall>raises e k. sink (output_to_db raises e k t) = Some (sent @ [(e, k)]))
              \<and> (\<forall>raises st. \<exists>kw. sink (change_wf_state raises st t)
                                      = Some (sent @ [(''xwf.'' @ st, kw)]))
              \<and> (\<forall>raises my_job status.
                    sink (snd (db_send_job_end raises my_job status t))
                      = Some (sent @ [(''job_inst.main.end'', job_end_kwargs my_job status t)])))"
proof -
  let ?s1 = "read_workflow_state sf s"
  let ?s2 = "read_workflow_progress True (Some [Line ''line_processed'' (Some P)]) ?s1"
  have p: "previous_processed_line ?s2 = P"
    by (simp add: read_workflow_progress_def logger_def)
  have r: "\<not> replay_mode ?s1" using assms(1) by (simp add: read_workflow_state_frame)
  have i: "init_recover sf True (Some [Line ''line_processed'' (Some P)]) s
           = ?s2\<lparr>last_processed_line := 0\<rparr>"
    using assms p by (simp add: init_recover_def Let_def)
  have a: "previous_processed_line (init_recover sf True (Some [Line ''line_processed'' (Some P)]) s) = P"
    unfolding i using p by simp
  have b: "last_processed_line (init_recover sf True (Some [Line ''line_processed'' (Some P)]) s) = 0"
    unfolding i by simp
  have c: "fst (check_notifications t) = False
           \<and> (\<forall>raises st. notified (change_wf_state raises st t) = notified t)"
    if "previous_processed_line t = P \<and> line t < P" for t
    using that change_wf_state_no_notification [of t] by (simp add: check_notifications_def)
  have d: "fst (check_notifications t) = enable_notifications t
           \<and> (enable_notifications t \<and> notifications_manager t \<longrightarrow>
                (\<forall>raises st. notified (change_wf_state raises st t)
                   = notified t @ [(''process_workflow_notifications'', [PStr st])]))"
    if "previous_processed_line t = P \<and> P \<le> line t" for t
    using that change_wf_state_notification [of t] by (simp add: check_notifications_def)
  have e: "(\<forall>raises e k. sink (output_to_db raises e k t) = Some (sent @ [(e, k)]))
           \<and> (\<forall>raises st. \<exists>kw. sink (change_wf_state raises st t)
                                   = Some (sent @ [(''xwf.'' @ st, kw)]))
           \<and> (\<forall>raises my_job status.
                 sink (snd (db_send_job_end raises my_job status t))
                   = Some (sent @ [(''job_inst.main.end'', job_end_kwargs my_job status t)]))"
    if "previous_processed_line t = P \<and> line t < P \<and> sink t = Some sent \<and> \<not> database_disabled t"
    for t sent
    using that output_to_db_sink [of t sent] change_wf_state_sink [of t sent]
      db_send_job_end_sink [of t sent]
    by blast
  from a b c d e show ?thesis by blast
qed

theorem init_recover_enters_recovery_mode_witness:
  "\<not> replay_mode wf_notify \<and> (5::int) \<noteq> 0
   \<and> previous_processed_line wf_recovering = 5 \<and> last_processed_line wf_recovering = 0
   \<and> line (wf_recovering\<lparr>line := 3\<rparr>) < 5
   \<and> fst (check_notifications (wf_recovering\<lparr>line := 3\<rparr>)) = False
   \<and> notified (change_wf_state sink_ok ''start'' (wf_recovering\<lparr>line := 3\<rparr>)) = []
   \<and> sink (output_to_db sink_ok ''xwf.start'' [] (wf_recovering\<lparr>line := 3\<rparr>))
       = Some [(''xwf.start'', [])]"
proof -
  let ?t = "wf_recovering\<lparr>line := 3\<rparr>"
  have a: "\<not> replay_mode wf_notify" by (simp add: wf_notify_def new_workflow_def)
  have b: "(5::int) \<noteq> 0" by simp
  note th = init_recover_enters_recovery_mode [OF a b, of None]
  from th have p: "previous_processed_line wf_recovering = 5"
    and l: "last_processed_line wf_recovering = 0"
    unfolding wf_recovering_def by blast+
  from th have c: "\<forall>t. previous_processed_line t = 5 \<and> line t < 5 \<longrightarrow>
              fst (check_notifications t) = False
              \<and> (\<forall>raises st. notified (change_wf_state raises st t) = notified t)"
    by blast
  from th have e: "\<forall>t sent. previous_processed_line t = 5 \<and> line t < 5 \<and> sink t = Some sent
                     \<and> \<not> database_disabled t \<longrightarrow>
              (\<forall>raises e k. sink (output_to_db raises e k t) = Some (sent @ [(e, k)]))"
    by blast
  have q: "previous_processed_line ?t = 5 \<and> line ?t < 5" using p by simp
  have n: "notified ?t = []" and k: "sink ?t = Some []" and dd: "\<not> database_disabled ?t"
    by (simp_all add: wf_recovering_def init_recover_def read_workflow_state_def
        read_workflow_progress_def logger_def wf_notify_def new_workflow_def Let_def)
  from c q have c1: "fst (check_notifications ?t) = False"
    and c2: "notified (change_wf_state sink_ok ''start'' ?t) = notified ?t"
    by blast+
  from e q k dd have e1: "sink (output_to_db sink_ok ''xwf.start'' [] ?t) = Some ([] @ [(''xwf.start'', [])])"
    by blast
  from a p l c1 c2 n e1 show ?thesis by simp
qed

text \<open>
  The claim as it is written fails in three places. On the recovery file that records
  line 5, in a workflow with notifications enabled, a notifications manager and a sink:
  at line 5 itself \<^verbatim>\<open>check_notifications\<close> returns \<open>True\<close> and the start of the
  controller issues its notification, so the line at the offset is not suppressed; and
  at line 3 the start of the controller sends the event \<^verbatim>\<open>xwf.start\<close> to the sink, so
  events of replayed lines are sent again. On a recovery file that records line 0, next
  to a state file that records line 7, \<open>last_processed_line\<close> stays 7.
\<close>

theorem recovery_suppression_counterexample:
  "previous_processed_line wf_recovering = 5
   \<and> fst (check_notifications (wf_recovering\<lparr>line := 5\<rparr>)) = True
   \<and> notified (change_wf_state sink_ok ''start'' (wf_recovering\<lparr>line := 5\<rparr>))
       = [(''process_workflow_notifications'', [PStr ''start''])]
   \<and> sink (change_wf_state sink_ok ''start'' (wf_recovering\<lparr>line := 3\<rparr>))
       = Some [(''xwf.start'', [(''xwf__id'', PNone), (''ts'', PInt 0), (''restart_count'', PInt 0)])]
   \<and> last_processed_line
        (init_recover (Some [Line ''monitord_dagman_out_sequence'' (Some 7)]) True
           (Some [Line ''line_processed'' (Some 0)]) wf_notify) = 7"
  by (simp add: wf_recovering_def init_recover_def read_workflow_state_def read_workflow_progress_def
      check_notifications_def change_wf_state_def db_send_wf_state_def output_to_db_def sink_ok_def
      py_str_opt_def logger_def wf_notify_def new_workflow_def Let_def)

section \<open>The counter of submit-sequence numbers\<close>

lemma add_job_counter_monotone:
  "job_submit_seq s \<le> job_submit_seq (snd (add_job Job n st sid s))"
proof (cases "fst (find_job_submit_seq n sid s)")
  case (Some q)
  then have "find_job_submit_seq n sid s = (Some q, snd (find_job_submit_seq n sid s))"
    by (simp add: prod_eq_iff)
  from add_job_reuse [OF this, of Job st] show ?thesis by simp
next
  case None
  show ?thesis
  proof (cases "has_key (jobs s) (n, job_submit_seq s)")
    case True
    from add_job_twice [OF None True, of Job st] show ?thesis by simp
  next
    case False
    from add_job_create [OF None False, of Job st] show ?thesis by simp
  qed
qed

subsection \<open>What the state file gives back\<close>

lemma is_digit_not_space: "is_digit c \<Longrightarrow> \<not> is_space c"
  by (auto simp: is_digit_def is_space_def)

lemma is_digit_not_sign: "is_digit c \<Longrightarrow> c \<noteq> CHR ''-'' \<and> c \<noteq> CHR ''+''"
  by (auto simp: is_digit_def)

lemma digits_value_snoc: "digits_value (ds @ [c]) = 10 * digits_value ds + (of_char c - 48)"
  by (simp add: digits_value_def)

lemma digits_props:
  "digits n \<noteq> [] \<and> list_all is_digit (digits n) \<and> digits_value (digits n) = n"
proof (induction n rule: digits.induct)
  case (1 n)
  show ?case
  proof (cases "n < 10")
    case True
    then have "digits n = [char_of (48 + n)]" by (simp add: digits.simps)
    with True show ?thesis by (simp add: is_digit_def digits_value_def)
  next
    case False
    then have e: "digits n = digits (n div 10) @ [char_of (48 + n mod 10)]"
      by (subst digits.simps) simp
    have m: "(48 + n mod 10) mod 256 = 48 + n mod 10" by simp
    from 1 [OF False] show ?thesis
      unfolding e by (simp add: digits_value_snoc is_digit_def m)
  qed
qed

lemma strip_no_space:
  assumes "list_all (\<lambda>c. \<not> is_space c) x"
  shows "strip x = x" and "strip (x @ [CHR 0x0A]) = x"
proof -
  have d: "dropWhile is_space y = y" if "list_all (\<lambda>c. \<not> is_space c) y" for y
    using that by (cases y) simp_all
  have r: "list_all (\<lambda>c. \<not> is_space c) (rev x)" using assms by (simp add: list_all_iff)
  show "strip x = x" by (simp add: strip_def d [OF assms] d [OF r])
  have n: "is_space (CHR 0x0A)" by (simp add: is_space_def)
  show "strip (x @ [CHR 0x0A]) = x"
  proof (cases x)
    case Nil
    then show ?thesis by (simp add: strip_def n)
  next
    case (Cons c cs)
    with assms have "dropWhile is_space (x @ [CHR 0x0A]) = x @ [CHR 0x0A]" by simp
    then show ?thesis by (simp add: strip_def n d [OF r])
  qed
qed

lemma str_int_no_space: "list_all (\<lambda>c. \<not> is_space c) (str_int n)"
proof -
  have "list_all (\<lambda>c. \<not> is_space c) (digits m)" for m
    using digits_props [of m] by (auto simp: list_all_iff is_digit_not_space)
  moreover have "\<not> is_space (CHR ''-'')" by (simp add: is_space_def)
  ultimately show ?thesis by (simp add: str_int_def)
qed

lemma py_int_str_int: "py_int (str_int n) = Some n"
proof (cases "n < 0")
  case True
  from digits_props [of "nat (- n)"] True show ?thesis
    by (simp add: py_int_def strip_no_space(1) [OF str_int_no_space] Let_def)
       (simp add: str_int_def)
next
  case False
  have h: "hd (digits (nat n)) \<noteq> CHR ''-'' \<and> hd (digits (nat n)) \<noteq> CHR ''+''"
    using digits_props [of "nat n"] is_digit_not_sign [of "hd (digits (nat n))"]
    by (cases "digits (nat n)") simp_all
  from digits_props [of "nat n"] False h show ?thesis
    by (simp add: py_int_def strip_no_space(1) [OF str_int_no_space] Let_def)
       (simp add: str_int_def)
qed

lemma tokenise_written_line:
  assumes "list_all (\<lambda>c. \<not> is_space c) my_job"
  shows "tokenise (my_job @ '' '' @ str_int c @ [CHR 0x0A]) = Line my_job (Some c)"
proof -
  have n: "CHR '' '' \<notin> set my_job" using assms by (auto simp: list_all_iff is_space_def)
  then have t: "takeWhile (\<lambda>c. c \<noteq> CHR '' '') (my_job @ CHR '' '' # r) = my_job"
    and d: "dropWhile (\<lambda>c. c \<noteq> CHR '' '') (my_job @ CHR '' '' # r) = CHR '' '' # r" for r
    by (induction my_job) auto
  show ?thesis
    by (simp add: tokenise_def t d strip_no_space(1) [OF assms]
        strip_no_space(2) [OF str_int_no_space] py_int_str_int)
qed

lemma lines_of_line:
  "CHR 0x0A \<notin> set a \<Longrightarrow> lines_of (a @ CHR 0x0A # r) = (a @ [CHR 0x0A]) # lines_of r"
  by (induction a) auto

lemma lines_of_written:
  assumes "\<forall>w \<in> set ws. \<exists>a. w = a @ [CHR 0x0A] \<and> CHR 0x0A \<notin> set a"
  shows "lines_of (concat ws) = ws"
  using assms
proof (induction ws)
  case Nil
  show ?case by simp
next
  case (Cons w ws)
  then obtain a where a: "w = a @ [CHR 0x0A]" "CHR 0x0A \<notin> set a" by auto
  from Cons have "lines_of (concat ws) = ws" by simp
  with lines_of_line [OF a(2), of "concat ws"] show ?case by (simp add: a(1))
qed

lemma written_line:
  assumes "list_all (\<lambda>c. \<not> is_space c) my_job"
  shows "\<exists>a. my_job @ '' '' @ str_int c @ [CHR 0x0A] = a @ [CHR 0x0A] \<and> CHR 0x0A \<notin> set a"
proof -
  have "CHR 0x0A \<notin> set my_job" using assms by (auto simp: list_all_iff is_space_def)
  moreover have "CHR 0x0A \<notin> set (str_int c)"
    using str_int_no_space [of c] by (auto simp: list_all_iff is_space_def)
  ultimately have "CHR 0x0A \<notin> set (my_job @ '' '' @ str_int c)" by simp
  then show ?thesis by (intro exI [of _ "my_job @ '' '' @ str_int c"]) simp
qed

text \<open>
  The lines of the state file that a workflow writes, when no name of a job in the
  table of the counters contains white space: the three lines of the workflow, then
  one line for each job.
\<close>

lemma state_file_lines_written:
  assumes "\<forall>n \<in> fst ` set (job_counters s). list_all (\<lambda>c. \<not> is_space c) n"
  shows "state_file_lines s
         = [Line ''monitord_job_sequence'' (Some (job_submit_seq s)),
            Line ''monitord_dagman_out_sequence''
              (Some (if line s > last_processed_line s then line s else last_processed_line s)),
            Line ''monitord_workflow_restart_count'' (Some (restart_count s))]
           @ map (\<lambda>(my_job, c). Line my_job (Some c)) (job_counters s)"
proof -
  have k: "list_all (\<lambda>c. \<not> is_space c) ''monitord_job_sequence''"
    "list_all (\<lambda>c. \<not> is_space c) ''monitord_dagman_out_sequence''"
    "list_all (\<lambda>c. \<not> is_space c) ''monitord_workflow_restart_count''"
    by (simp_all add: is_space_def)
  have j: "list_all (\<lambda>c. \<not> is_space c) (fst p)" if "p \<in> set (job_counters s)" for p
    using assms that by auto
  have w: "\<forall>w \<in> set (state_file_writes s). \<exists>a. w = a @ [CHR 0x0A] \<and> CHR 0x0A \<notin> set a"
  proof
    fix w assume "w \<in> set (state_file_writes s)"
    then consider "w = ''monitord_job_sequence'' @ '' '' @ str_int (job_submit_seq s) @ [CHR 0x0A]"
      | "w = ''monitord_dagman_out_sequence'' @ '' ''
               @ str_int (if line s > last_processed_line s then line s else last_processed_line s)
               @ [CHR 0x0A]"
      | "w = ''monitord_workflow_restart_count'' @ '' '' @ str_int (restart_count s) @ [CHR 0x0A]"
      | p where "p \<in> set (job_counters s)" "w = fst p @ '' '' @ str_int (snd p) @ [CHR 0x0A]"
      by (auto simp: state_file_writes_def split_beta)
    then show "\<exists>a. w = a @ [CHR 0x0A] \<and> CHR 0x0A \<notin> set a"
    proof cases
      case 1 then show ?thesis using written_line [OF k(1)] by simp
    next
      case 2 then show ?thesis using written_line [OF k(2)] by simp
    next
      case 3 then show ?thesis using written_line [OF k(3)] by simp
    next
      case 4 then show ?thesis using written_line [OF j [OF 4(1)]] by simp
    qed
  qed
  have t: "map tokenise (map (\<lambda>(my_job, c). my_job @ '' '' @ str_int c @ [CHR 0x0A]) (job_counters s))
           = map (\<lambda>(my_job, c). Line my_job (Some c)) (job_counters s)"
    using tokenise_written_line [OF j] by (simp add: split_beta)
  have "state_file_lines s = map tokenise (state_file_writes s)"
    by (simp add: state_file_lines_def file_of_writes_def lines_of_written [OF w])
  also have "\<dots> = [tokenise (''monitord_job_sequence'' @ '' '' @ str_int (job_submit_seq s) @ [CHR 0x0A]),
            tokenise (''monitord_dagman_out_sequence'' @ '' ''
               @ str_int (if line s > last_processed_line s then line s else last_processed_line s)
               @ [CHR 0x0A]),
            tokenise (''monitord_workflow_restart_count'' @ '' '' @ str_int (restart_count s) @ [CHR 0x0A])]
           @ map (\<lambda>(my_job, c). Line my_job (Some c)) (job_counters s)"
    using t by (simp add: state_file_writes_def)
  finally show ?thesis
    by (simp only: tokenise_written_line [OF k(1)] tokenise_written_line [OF k(2)]
        tokenise_written_line [OF k(3)])
qed

lemma read_counter_lines:
  assumes "''monitord_job_sequence'' \<notin> fst ` set cs"
  shows "job_submit_seq (read_state_lines fn (map (\<lambda>(my_job, c). Line my_job (Some c)) cs) s)
         = job_submit_seq s"
  using assms by (induction cs arbitrary: s) (auto simp: split_beta)

text \<open>
  Within a run, a new instance gets the value of the counter and the counter moves on
  by one, so the numbers of a run increase (\<open>add_job_create\<close>, \<open>add_job_counter_monotone\<close>).
  The state file that a workflow writes in full when it ends gives the next run its
  counter back, provided no job is named \<^verbatim>\<open>monitord_job_sequence\<close> and no name of a
  job contains white space.
\<close>

lemma state_file_restores_counter:
  assumes "\<forall>n \<in> fst ` set (job_counters s). list_all (\<lambda>c. \<not> is_space c) n"
    and "''monitord_job_sequence'' \<notin> fst ` set (job_counters s)"
  shows "job_submit_seq (read_workflow_state (fst (write_workflow_state True None f s)) t)
         = job_submit_seq s"
  using read_counter_lines [OF assms(2)]
  by (simp add: write_workflow_state_def read_workflow_state_def state_file_lines_written [OF assms(1)])

text \<open>
  The reader strips the name it reads, so a job whose name is \<^verbatim>\<open>monitord_job_sequence\<close>
  followed by a blank is read back as the counter of submit-sequence numbers as well.
\<close>

lemma state_file_trailing_blank:
  "job_submit_seq
     (read_workflow_state
        (fst (write_workflow_state True None None
                (wf0\<lparr>job_submit_seq := 2, job_counters := [(''monitord_job_sequence '', 0)]\<rparr>)))
        wf0) = 0"
  by code_simp

text \<open>
  C1 fails on the code. The counters of the jobs are written to the state file under
  the names of the jobs, after the line of the counter of submit-sequence numbers, and
  read back by the same loop. A job named \<^verbatim>\<open>monitord_job_sequence\<close> gets the number 1
  in the first run, which ends with the counter at 2; its line in the state file
  overwrites the counter with 0 in the next run, where the jobs \<^verbatim>\<open>B\<close> and \<^verbatim>\<open>C\<close> then
  get the numbers 0 and 1: a number below one assigned before, and the number 1 a
  second time.
\<close>

theorem state_file_key_collision_reuses_number:
  "fst (add_job blank_job ''monitord_job_sequence'' ''SUBMIT'' None wf0) = Some 1
   \<and> job_submit_seq wf_collide = 2
   \<and> fst (write_workflow_state True None None wf_collide)
       = Some [Line ''monitord_job_sequence'' (Some 2),
               Line ''monitord_dagman_out_sequence'' (Some 0),
               Line ''monitord_workflow_restart_count'' (Some 0),
               Line ''monitord_job_sequence'' (Some 0)]
   \<and> job_submit_seq wf_restarted = 0
   \<and> fst (add_job blank_job ''B'' ''SUBMIT'' None wf_restarted) = Some 0
   \<and> fst (add_job blank_job ''C'' ''SUBMIT'' None
            (snd (add_job blank_job ''B'' ''SUBMIT'' None wf_restarted))) = Some 1"
proof -
  have a: "fst (add_job blank_job ''monitord_job_sequence'' ''SUBMIT'' None wf0) = Some 1"
    by (simp add: add_job_def find_job_submit_seq_def find_jobid_def has_key_def add_job_counter_def
        blank_job_def wf0_def new_workflow_def Let_def)
  have b: "job_submit_seq wf_collide = 2"
    and c: "job_counters wf_collide = [(''monitord_job_sequence'', 0)]"
    and d: "line wf_collide = 0" "last_processed_line wf_collide = 0" "restart_count wf_collide = 0"
    by (simp_all add: wf_collide_def add_job_def find_job_submit_seq_def find_jobid_def has_key_def
        add_job_counter_def blank_job_def wf0_def new_workflow_def Let_def)
  have n: "\<forall>n \<in> fst ` set (job_counters wf_collide). list_all (\<lambda>c. \<not> is_space c) n"
    by (simp add: c is_space_def)
  have e: "fst (write_workflow_state True None None wf_collide)
       = Some [Line ''monitord_job_sequence'' (Some 2),
               Line ''monitord_dagman_out_sequence'' (Some 0),
               Line ''monitord_workflow_restart_count'' (Some 0),
               Line ''monitord_job_sequence'' (Some 0)]"
    by (simp add: write_workflow_state_def state_file_lines_written [OF n] b c d)
  have r: "wf_restarted = wf0\<lparr>job_submit_seq := 0, last_processed_line := 0, restart_count := 0,
                              job_submit_seq := 0\<rparr>"
    unfolding wf_restarted_def e
    by (simp add: init_recover_def read_workflow_state_def read_workflow_progress_def
        wf0_def new_workflow_def Let_def)
  have f: "job_submit_seq wf_restarted = 0" unfolding r by simp
  have g: "fst (add_job blank_job ''B'' ''SUBMIT'' None wf_restarted) = Some 0"
    unfolding r
    by (simp add: add_job_def find_job_submit_seq_def find_jobid_def has_key_def add_job_counter_def
        blank_job_def wf0_def new_workflow_def Let_def)
  have h: "fst (add_job blank_job ''C'' ''SUBMIT'' None
            (snd (add_job blank_job ''B'' ''SUBMIT'' None wf_restarted))) = Some 1"
    unfolding r
    by (simp add: add_job_def find_job_submit_seq_def find_jobid_def has_key_def add_job_counter_def
        blank_job_def wf0_def new_workflow_def Let_def)
  from a b e f g h show ?thesis by simp
qed

end
